theory Spec2Isabelle
  imports Complex_Main "HOL-Library.Char_ord" "HOL-Library.List_Lexorder" "HOL-Library.Log_Nat"
begin

section \<open>Olist financial dashboard: the transformation pipeline\<close>

text \<open>
  The repository has two entry points that rebuild the same tables with pandas:
  \<^verbatim>\<open>data_pipeline.py\<close> (batch export to JSON) and \<^verbatim>\<open>streamlit_app.py\<close> (interactive
  dashboard). A DataFrame is modelled as the list of its rows, in row order; a row is a
  record of its columns. A cell that pandas holds as NaN / None / NaT is \<open>None\<close>.
  Strings are compared as Python compares them, character by character
  (\<open>Char_ord\<close>, \<open>List_Lexorder\<close>).

  A number is a rational. The aggregates of a group (sum, mean, and the monthly total of
  revenue and freight) are taken exactly: the rounding inside them is not modelled. The
  average order value and the quarterly growth are computed as the code does, in doubles:
  each quotient, difference and product is rounded to the nearest double as IEEE 754 does
  (\<open>fl\<close> below), and a division can produce the special values \<open>inf\<close> and \<open>nan\<close>.

  A merge raises ValueError when the dtypes of its key columns do not fit (one holds text,
  the other is entirely missing and therefore numeric). The tables defined here are those
  of a run in which no merge raises.
\<close>

subsection \<open>Raw tables\<close>

text \<open>
  \<open>order_purchase_timestamp\<close> is the column after
  \<^verbatim>\<open>pd.to_datetime(orders[col], errors='coerce')\<close>: a text that does not parse has
  become NaT, here \<open>None\<close>.
\<close>

record timestamp =
  ts_year :: nat
  ts_month :: nat
  ts_day :: nat
  ts_hour :: nat
  ts_minute :: nat
  ts_second :: nat

record order =
  o_order_id :: "string option"
  o_customer_id :: "string option"
  order_status :: "string option"
  order_purchase_timestamp :: "timestamp option"

record item =
  i_order_id :: "string option"
  i_product_id :: "string option"
  i_seller_id :: "string option"
  price :: "rat option"
  freight_value :: "rat option"

record payment =
  p_order_id :: "string option"
  payment_type :: "string option"
  payment_installments :: "int option"
  payment_value :: "rat option"

record review =
  rv_order_id :: "string option"
  review_score :: "int option"

record customer =
  c_customer_id :: "string option"
  customer_state :: "string option"
  customer_city :: "string option"

record product =
  pr_product_id :: "string option"
  pr_product_category_name :: "string option"

record seller =
  s_seller_id :: "string option"
  seller_state :: "string option"
  seller_city :: "string option"

record translation =
  t_product_category_name :: "string option"
  t_product_category_name_english :: "string option"

subsection \<open>pandas primitives\<close>

text \<open>
  \<^verbatim>\<open>left.merge(right, on=key, how='inner')\<close>: every left row, in order, is paired with
  every right row that carries the same key. pandas matches a missing key with a missing
  key, as the equality of \<open>option\<close> does (the documentation of \<^verbatim>\<open>DataFrame.merge\<close>: rows
  whose key is a null value in both frames are matched against each other, unlike in SQL).
\<close>

definition merge_inner :: "('a \<Rightarrow> 'k) \<Rightarrow> ('b \<Rightarrow> 'k) \<Rightarrow> 'a list \<Rightarrow> 'b list \<Rightarrow> ('a \<times> 'b) list" where
  "merge_inner kl kr ls rs =
     concat (map (\<lambda>l. map (\<lambda>r. (l, r)) (filter (\<lambda>r. kr r = kl l) rs)) ls)"

text \<open>
  \<^verbatim>\<open>how='left'\<close>: a left row without a partner is kept once, the right columns missing.
\<close>

definition merge_left :: "('a \<Rightarrow> 'k) \<Rightarrow> ('b \<Rightarrow> 'k) \<Rightarrow> 'a list \<Rightarrow> 'b list \<Rightarrow> ('a \<times> 'b option) list" where
  "merge_left kl kr ls rs =
     concat (map (\<lambda>l. case filter (\<lambda>r. kr r = kl l) rs of
                          [] \<Rightarrow> [(l, None)]
                        | ms \<Rightarrow> map (\<lambda>r. (l, Some r)) ms) ls)"

text \<open>The values of a column that are present, in row order (\<^verbatim>\<open>skipna\<close>, \<^verbatim>\<open>dropna\<close>).\<close>

definition notna :: "'a option list \<Rightarrow> 'a list" where
  "notna cs = List.map_filter id cs"

text \<open>
  \<^verbatim>\<open>groupby(key)\<close> with the defaults \<^verbatim>\<open>sort=True, dropna=True\<close>: one group for each
  key that is present, the groups in ascending key order.
\<close>

definition group_keys :: "('a \<Rightarrow> 'k::linorder option) \<Rightarrow> 'a list \<Rightarrow> 'k list" where
  "group_keys key rows = sort (remdups (notna (map key rows)))"

definition group_rows :: "('a \<Rightarrow> 'k option) \<Rightarrow> 'a list \<Rightarrow> 'k \<Rightarrow> 'a list" where
  "group_rows key rows k = filter (\<lambda>r. key r = Some k) rows"

text \<open>The aggregations \<^verbatim>\<open>'sum'\<close>, \<^verbatim>\<open>'first'\<close>, \<^verbatim>\<open>'max'\<close>, \<^verbatim>\<open>'count'\<close>, \<^verbatim>\<open>'nunique'\<close>:
  all of them skip missing cells; the sum of no value is 0, the first and the maximum of
  no value are missing.\<close>

definition agg_sum :: "rat option list \<Rightarrow> rat" where
  "agg_sum cs = sum_list (notna cs)"

definition agg_first :: "'a option list \<Rightarrow> 'a option" where
  "agg_first cs = (case notna cs of [] \<Rightarrow> None | x # _ \<Rightarrow> Some x)"

definition agg_max :: "'a::linorder option list \<Rightarrow> 'a option" where
  "agg_max cs = (case notna cs of [] \<Rightarrow> None | x # xs \<Rightarrow> Some (fold max xs x))"

definition agg_count :: "'a option list \<Rightarrow> nat" where
  "agg_count cs = length (notna cs)"

definition agg_nunique :: "'a option list \<Rightarrow> nat" where
  "agg_nunique cs = length (remdups (notna cs))"

subsection \<open>Cleaner: delivered orders and their calendar buckets\<close>

text \<open>Decimal digits of a number, and Python's zero padding to a width.\<close>

definition digit_char :: "nat \<Rightarrow> char" where
  "digit_char n = ''0123456789'' ! (n mod 10)"

fun dec :: "nat \<Rightarrow> string" where
  "dec n = (if n < 10 then [digit_char n] else dec (n div 10) @ [digit_char n])"

declare dec.simps [simp del]

definition zfill :: "nat \<Rightarrow> string \<Rightarrow> string" where
  "zfill w s = replicate (w - length s) (CHR ''0'') @ s"

text \<open>
  \<^verbatim>\<open>.dt.to_period('M').astype(str)\<close> prints a month as \<^verbatim>\<open>2017-02\<close>,
  \<^verbatim>\<open>.dt.to_period('Q').astype(str)\<close> prints a quarter as \<^verbatim>\<open>2017Q1\<close>, and both print
  NaT as the text \<^verbatim>\<open>NaT\<close>.
\<close>

definition period_M_str :: "timestamp option \<Rightarrow> string" where
  "period_M_str c = (case c of None \<Rightarrow> ''NaT''
     | Some t \<Rightarrow> zfill 4 (dec (ts_year t)) @ ''-'' @ zfill 2 (dec (ts_month t)))"

definition period_Q_str :: "timestamp option \<Rightarrow> string" where
  "period_Q_str c = (case c of None \<Rightarrow> ''NaT''
     | Some t \<Rightarrow> zfill 4 (dec (ts_year t)) @ ''Q'' @ dec ((ts_month t - 1) div 3 + 1))"

record delivered_order = order +
  year_month :: string
  quarter :: string
  year :: "nat option"

definition add_time_dims :: "order \<Rightarrow> delivered_order" where
  "add_time_dims o' = order.extend o'
     \<lparr> year_month = period_M_str (order_purchase_timestamp o'),
       quarter = period_Q_str (order_purchase_timestamp o'),
       year = map_option ts_year (order_purchase_timestamp o') \<rparr>"

definition delivered :: "order list \<Rightarrow> delivered_order list" where
  "delivered orders =
     map add_time_dims (filter (\<lambda>o'. order_status o' = Some ''delivered'') orders)"

subsection \<open>Joiner: enriched items, payments per order, master table\<close>

text \<open>\<^verbatim>\<open>fillna(v)\<close> on one cell.\<close>

definition fillna :: "'a \<Rightarrow> 'a option \<Rightarrow> 'a option" where
  "fillna v c = (case c of None \<Rightarrow> Some v | Some x \<Rightarrow> Some x)"

record enriched_item = item +
  product_category_name :: "string option"
  product_category_name_english :: "string option"

text \<open>
  The two left merges shared by both entry points:
  \<^verbatim>\<open>items.merge(products[['product_id', 'product_category_name']], on='product_id', how='left')
       .merge(translations, on='product_category_name', how='left')\<close>
\<close>

definition items_merged :: "item list \<Rightarrow> product list \<Rightarrow> translation list \<Rightarrow> enriched_item list" where
  "items_merged items products translations =
     map (\<lambda>((i, c), t). item.extend i
            \<lparr> product_category_name = c,
              product_category_name_english = Option.bind t t_product_category_name_english \<rparr>)
       (merge_left snd t_product_category_name
          (map (\<lambda>(i, p). (i, Option.bind p pr_product_category_name))
             (merge_left i_product_id pr_product_id items products))
          translations)"

text \<open>
  \<^verbatim>\<open>data_pipeline.py\<close>:
  \<^verbatim>\<open>items_enriched['product_category_name_english'].fillna('other', inplace=True)\<close>
  fills the column that the selection returns. With copy-on-write (pandas 3 and later) that
  column is a copy and the frame stays as it was merged; without it (pandas before 3) the
  column shares the data of the frame, which is filled. Which of the two runs is the first
  argument.
\<close>

definition items_enriched :: "bool \<Rightarrow> item list \<Rightarrow> product list \<Rightarrow> translation list
    \<Rightarrow> enriched_item list" where
  "items_enriched copy_on_write items products translations =
     (if copy_on_write then items_merged items products translations
      else map (\<lambda>r. r\<lparr>product_category_name_english :=
                    fillna ''other'' (product_category_name_english r)\<rparr>)
             (items_merged items products translations))"

text \<open>
  \<^verbatim>\<open>streamlit_app.py\<close>:
  \<^verbatim>\<open>items_e['category'] = items_e['product_category_name_english'].fillna('other')\<close>
  adds a column and leaves the merged one as it is.
\<close>

record items_e_row = enriched_item +
  category :: "string option"

definition items_e :: "item list \<Rightarrow> product list \<Rightarrow> translation list \<Rightarrow> items_e_row list" where
  "items_e items products translations =
     map (\<lambda>r. enriched_item.extend r
            \<lparr> category = fillna ''other'' (product_category_name_english r) \<rparr>)
       (items_merged items products translations)"

text \<open>
  \<^verbatim>\<open>payments.groupby('order_id').agg(payment_value=('payment_value', 'sum'),
       payment_type=('payment_type', 'first'),
       max_installments=('payment_installments', 'max')).reset_index()\<close>
\<close>

record order_payment =
  op_order_id :: string
  op_payment_value :: rat
  op_payment_type :: "string option"
  op_max_installments :: "int option"

definition order_payments :: "payment list \<Rightarrow> order_payment list" where
  "order_payments payments =
     map (\<lambda>k. let g = group_rows p_order_id payments k in
            \<lparr> op_order_id = k,
              op_payment_value = agg_sum (map payment_value g),
              op_payment_type = agg_first (map payment_type g),
              op_max_installments = agg_max (map payment_installments g) \<rparr>)
       (group_keys p_order_id payments)"

text \<open>
  A row of the master table keeps the rows it was merged from; a left merge that found no
  partner leaves \<open>None\<close>, that is, all of that table's columns missing.
\<close>

record master_row =
  mr_order :: delivered_order
  mr_item :: enriched_item
  mr_payment :: "order_payment option"
  mr_customer :: "customer option"
  mr_seller :: "seller option"

definition in_window :: "string \<Rightarrow> bool" where
  "in_window ym \<longleftrightarrow> ym \<ge> ''2017-01'' \<and> ym \<le> ''2018-08''"

definition master_merged :: "delivered_order list \<Rightarrow> enriched_item list \<Rightarrow> order_payment list
    \<Rightarrow> customer list \<Rightarrow> seller list \<Rightarrow> master_row list" where
  "master_merged dl ie ops customers sellers =
     map (\<lambda>((((d, i), p), c), s).
            \<lparr> mr_order = d, mr_item = i, mr_payment = p, mr_customer = c, mr_seller = s \<rparr>)
       (merge_left (\<lambda>(((d, i), p), c). i_seller_id i) s_seller_id
          (merge_left (\<lambda>((d, i), p). o_customer_id d) c_customer_id
             (merge_left (\<lambda>(d, i). o_order_id d) (\<lambda>p. Some (op_order_id p))
                (merge_inner o_order_id i_order_id dl ie)
                ops)
             customers)
          sellers)"

definition master_of :: "delivered_order list \<Rightarrow> enriched_item list \<Rightarrow> order_payment list
    \<Rightarrow> customer list \<Rightarrow> seller list \<Rightarrow> master_row list" where
  "master_of dl ie ops customers sellers =
     filter (\<lambda>r. in_window (year_month (mr_order r)))
       (master_merged dl ie ops customers sellers)"

text \<open>The eight raw tables, as the loader returns them.\<close>

record raw_tables =
  orders :: "order list"
  items :: "item list"
  payments :: "payment list"
  reviews :: "review list"
  customers :: "customer list"
  products :: "product list"
  sellers :: "seller list"
  category_translations :: "translation list"

definition master :: "bool \<Rightarrow> raw_tables \<Rightarrow> master_row list" where
  "master copy_on_write T =
     master_of (delivered (orders T))
       (items_enriched copy_on_write (items T) (products T) (category_translations T))
       (order_payments (payments T)) (customers T) (sellers T)"

text \<open>The master table of \<^verbatim>\<open>streamlit_app.py\<close> merges orders, items and customers only.\<close>

record st_master_row =
  sm_order :: delivered_order
  sm_item :: items_e_row
  sm_customer :: "customer option"

definition st_master :: "raw_tables \<Rightarrow> st_master_row list" where
  "st_master T =
     filter (\<lambda>r. in_window (year_month (sm_order r)))
       (map (\<lambda>((d, i), c). \<lparr> sm_order = d, sm_item = i, sm_customer = c \<rparr>)
          (merge_left (\<lambda>(d, i). o_customer_id d) c_customer_id
             (merge_inner o_order_id i_order_id (delivered (orders T))
                (items_e (items T) (products T) (category_translations T)))
             (customers T)))"

subsection \<open>Metric engine: scalar KPIs\<close>

text \<open>A double: a finite number, an infinity or \<open>nan\<close> (the sign of zero is not kept).\<close>

datatype fval = Fin rat | PosInf | NegInf | NaN

text \<open>\<^verbatim>\<open>rint\<close>: the nearest integer, the even one of two that are equally near.\<close>

definition rint :: "rat \<Rightarrow> int" where
  "rint x = (let f = \<lfloor>x\<rfloor>; d = x - of_int f in
     if d < 1 / 2 then f else if d > 1 / 2 then f + 1 else if even f then f else f + 1)"

text \<open>
  Rounding of an exact result to binary64, to nearest and ties to even: with
  \<open>2 ^ e \<le> \<bar>x\<bar> < 2 ^ (e + 1)\<close> the doubles around \<open>x\<close> are the multiples of
  \<open>2 ^ (e - 52)\<close> (of \<open>2 ^ (- 1074)\<close> in the subnormal range, \<open>e < - 1022\<close>), and a result
  that rounds to \<open>2 ^ 1024\<close> or beyond overflows to an infinity.
\<close>

definition pow2 :: "int \<Rightarrow> rat" where
  "pow2 e = (if e \<ge> 0 then 2 ^ nat e else 1 / 2 ^ nat (- e))"

definition ilog2 :: "rat \<Rightarrow> int" where
  "ilog2 x = (if \<bar>x\<bar> \<ge> 1 then bitlen \<lfloor>\<bar>x\<bar>\<rfloor> - 1 else - bitlen (\<lceil>1 / \<bar>x\<bar>\<rceil> - 1))"

definition fl :: "rat \<Rightarrow> fval" where
  "fl x = (if x = 0 then Fin 0 else
     let u = pow2 (max (ilog2 x) (- 1022) - 52);
         r = of_int (rint (x / u)) * u
     in if \<bar>r\<bar> \<ge> 2 ^ 1024 then (if x > 0 then PosInf else NegInf) else Fin r)"

text \<open>
  A pandas sum is a numpy float, and numpy divides by zero without raising: the quotient is
  \<open>inf\<close>, \<open>-inf\<close> or \<open>nan\<close> (with a RuntimeWarning only).
\<close>

definition np_true_divide :: "rat \<Rightarrow> rat \<Rightarrow> fval" where
  "np_true_divide x y =
     (if y \<noteq> 0 then fl (x / y)
      else if x > 0 then PosInf else if x < 0 then NegInf else NaN)"

text \<open>An operation with a finite second operand (subtracting 1, multiplying by 100 or 10,
  dividing by 10, \<^verbatim>\<open>rint\<close>) acts on a finite number and keeps \<open>inf\<close>, \<open>-inf\<close> and
  \<open>nan\<close>.\<close>

fun fthen :: "(rat \<Rightarrow> fval) \<Rightarrow> fval \<Rightarrow> fval" where
  "fthen f (Fin x) = f x"
| "fthen f v = v"

text \<open>
  \<^verbatim>\<open>pay_merged = payments.merge(delivered[['order_id']], on='order_id')\<close>: the payment
  rows of delivered orders (the merge adds no column).
\<close>

definition pay_merged :: "raw_tables \<Rightarrow> payment list" where
  "pay_merged T = map fst (merge_inner p_order_id o_order_id (payments T) (delivered (orders T)))"

definition total_revenue :: "raw_tables \<Rightarrow> rat" where
  "total_revenue T = agg_sum (map payment_value (pay_merged T))"

definition total_orders :: "raw_tables \<Rightarrow> nat" where
  "total_orders T = length (delivered (orders T))"

text \<open>\<^verbatim>\<open>avg_order_value = total_revenue / total_orders if total_orders else 0\<close>\<close>

definition avg_order_value :: "raw_tables \<Rightarrow> fval" where
  "avg_order_value T =
     (if total_orders T \<noteq> 0 then np_true_divide (total_revenue T) (of_nat (total_orders T))
      else Fin 0)"

text \<open>
  \<^verbatim>\<open>streamlit_app.py\<close>:
  \<^verbatim>\<open>c3.metric("Avg Order Value", f"R$ {total_rev/delivered.shape[0]:.2f}")\<close>
\<close>

definition st_avg_order_value :: "raw_tables \<Rightarrow> fval" where
  "st_avg_order_value T =
     np_true_divide (agg_sum (map payment_value (pay_merged T)))
       (of_nat (length (delivered (orders T))))"

subsection \<open>Metric engine: grouped aggregates\<close>

text \<open>Columns of the master table.\<close>

abbreviation m_order_id :: "master_row \<Rightarrow> string option" where
  "m_order_id r \<equiv> o_order_id (mr_order r)"

abbreviation m_customer_id :: "master_row \<Rightarrow> string option" where
  "m_customer_id r \<equiv> o_customer_id (mr_order r)"

abbreviation m_year_month :: "master_row \<Rightarrow> string option" where
  "m_year_month r \<equiv> Some (year_month (mr_order r))"

abbreviation m_quarter :: "master_row \<Rightarrow> string option" where
  "m_quarter r \<equiv> Some (quarter (mr_order r))"

abbreviation m_price :: "master_row \<Rightarrow> rat option" where
  "m_price r \<equiv> price (mr_item r)"

abbreviation m_freight_value :: "master_row \<Rightarrow> rat option" where
  "m_freight_value r \<equiv> freight_value (mr_item r)"

abbreviation m_category :: "master_row \<Rightarrow> string option" where
  "m_category r \<equiv> product_category_name_english (mr_item r)"

abbreviation m_customer_state :: "master_row \<Rightarrow> string option" where
  "m_customer_state r \<equiv> Option.bind (mr_customer r) customer_state"

text \<open>\<^verbatim>\<open>'mean'\<close>: missing when no value is present.\<close>

definition agg_mean :: "rat option list \<Rightarrow> rat option" where
  "agg_mean cs = (case notna cs of [] \<Rightarrow> None
     | xs \<Rightarrow> Some (sum_list xs / of_nat (length xs)))"

text \<open>
  \<^verbatim>\<open>sort_values\<close> is modelled by a stable sort; pandas leaves the order of rows with equal
  keys to the sorting algorithm, and nothing below depends on it.
\<close>

record monthly_row =
  mo_year_month :: string
  mo_revenue :: rat
  mo_freight :: rat
  mo_orders :: nat
  mo_total :: rat

definition monthly :: "master_row list \<Rightarrow> monthly_row list" where
  "monthly m =
     sort_key mo_year_month
       (map (\<lambda>k. let g = group_rows m_year_month m k;
                     rv = agg_sum (map m_price g);
                     fr = agg_sum (map m_freight_value g) in
              \<lparr> mo_year_month = k, mo_revenue = rv, mo_freight = fr,
                mo_orders = agg_nunique (map m_order_id g), mo_total = rv + fr \<rparr>)
          (group_keys m_year_month m))"

record category_row =
  ca_category :: string
  ca_revenue :: rat
  ca_orders :: nat
  ca_avg_price :: "rat option"

definition categories :: "master_row list \<Rightarrow> category_row list" where
  "categories m =
     take 15 (sort_key (\<lambda>r. - ca_revenue r)
       (map (\<lambda>k. let g = group_rows m_category m k in
              \<lparr> ca_category = k, ca_revenue = agg_sum (map m_price g),
                ca_orders = agg_nunique (map m_order_id g),
                ca_avg_price = agg_mean (map m_price g) \<rparr>)
          (group_keys m_category m)))"

record state_row =
  st_customer_state :: string
  st_revenue :: rat
  st_orders :: nat
  st_customers :: nat

definition states :: "master_row list \<Rightarrow> state_row list" where
  "states m =
     sort_key (\<lambda>r. - st_revenue r)
       (map (\<lambda>k. let g = group_rows m_customer_state m k in
              \<lparr> st_customer_state = k, st_revenue = agg_sum (map m_price g),
                st_orders = agg_nunique (map m_order_id g),
                st_customers = agg_nunique (map m_customer_id g) \<rparr>)
          (group_keys m_customer_state m))"

text \<open>
  \<^verbatim>\<open>Series.pct_change()\<close>: the first entry is \<open>nan\<close>, every later one is the value
  divided by its predecessor, minus 1.
\<close>

fun pct_change :: "rat list \<Rightarrow> fval list" where
  "pct_change [] = []"
| "pct_change (x # xs) =
     NaN # map2 (\<lambda>prev cur. fthen (\<lambda>q. fl (q - 1)) (np_true_divide cur prev)) (x # xs) xs"

text \<open>
  \<^verbatim>\<open>round(d)\<close> of numpy for \<open>d > 0\<close>: multiply by \<open>10 ^ d\<close>, \<^verbatim>\<open>rint\<close>, divide by
  \<open>10 ^ d\<close>, each step a floating-point operation.
\<close>

definition np_round :: "nat \<Rightarrow> fval \<Rightarrow> fval" where
  "np_round d v =
     fthen (\<lambda>y. fl (of_int (rint y) / 10 ^ d)) (fthen (\<lambda>x. fl (x * 10 ^ d)) v)"

record quarterly_row =
  q_quarter :: string
  q_revenue :: rat
  q_orders :: nat

record quarterly_growth_row = quarterly_row +
  growth_pct :: fval

definition quarterly_grouped :: "master_row list \<Rightarrow> quarterly_row list" where
  "quarterly_grouped m =
     sort_key q_quarter
       (map (\<lambda>k. let g = group_rows m_quarter m k in
              \<lparr> q_quarter = k, q_revenue = agg_sum (map m_price g),
                q_orders = agg_nunique (map m_order_id g) \<rparr>)
          (group_keys m_quarter m))"

text \<open>
  \<^verbatim>\<open>quarterly['growth_pct'] = (quarterly['revenue'].pct_change() * 100).round(1)\<close>
\<close>

definition quarterly :: "master_row list \<Rightarrow> quarterly_growth_row list" where
  "quarterly m =
     (let q = quarterly_grouped m in
      map2 (\<lambda>r g. quarterly_row.extend r \<lparr> growth_pct = g \<rparr>) q
        (map (np_round 1) (map (fthen (\<lambda>v. fl (v * 100))) (pct_change (map q_revenue q)))))"

text \<open>
  Credit-card payments by number of installments; both entry points group alike.
  \<^verbatim>\<open>data_pipeline.py\<close> then keeps \<^verbatim>\<open>.sort_values('payment_installments').head(12)\<close>,
  \<^verbatim>\<open>streamlit_app.py\<close> keeps \<^verbatim>\<open>inst['payment_installments'].between(1, 10)\<close>.
\<close>

record installment_row =
  in_payment_installments :: int
  in_count :: nat
  in_total :: rat

definition installments_grouped :: "payment list \<Rightarrow> installment_row list" where
  "installments_grouped pm =
     (let cc = filter (\<lambda>p. payment_type p = Some ''credit_card'') pm in
      map (\<lambda>k. let g = group_rows payment_installments cc k in
             \<lparr> in_payment_installments = k, in_count = agg_count (map p_order_id g),
               in_total = agg_sum (map payment_value g) \<rparr>)
        (group_keys payment_installments cc))"

definition installments :: "payment list \<Rightarrow> installment_row list" where
  "installments pm = take 12 (sort_key in_payment_installments (installments_grouped pm))"

definition inst :: "payment list \<Rightarrow> installment_row list" where
  "inst pm =
     filter (\<lambda>r. 1 \<le> in_payment_installments r \<and> in_payment_installments r \<le> 10)
       (installments_grouped pm)"

subsection \<open>Loader\<close>

text \<open>
  The data directory: each of the eight expected files is absent (\<open>None\<close>) or holds its
  table. \<^verbatim>\<open>pd.read_csv(path)\<close> raises FileNotFoundError, whose message carries the path,
  when the file is absent.
\<close>

record data_dir =
  orders_csv :: "order list option"
  items_csv :: "item list option"
  payments_csv :: "payment list option"
  reviews_csv :: "review list option"
  customers_csv :: "customer list option"
  products_csv :: "product list option"
  sellers_csv :: "seller list option"
  translations_csv :: "translation list option"

datatype error = FileNotFoundError string

definition DATA_DIR :: string where
  "DATA_DIR = ''data/''"

definition read_csv :: "string \<Rightarrow> 'a option \<Rightarrow> error + 'a" where
  "read_csv path file = (case file of None \<Rightarrow> Inl (FileNotFoundError path) | Some t \<Rightarrow> Inr t)"

text \<open>The eight reads, in the order of the source; the first one that raises ends them.\<close>

definition load_tables :: "data_dir \<Rightarrow> error + raw_tables" where
  "load_tables d =
    (case read_csv (DATA_DIR @ ''olist_orders_dataset.csv'') (orders_csv d) of Inl e \<Rightarrow> Inl e | Inr os \<Rightarrow>
    (case read_csv (DATA_DIR @ ''olist_order_items_dataset.csv'') (items_csv d) of Inl e \<Rightarrow> Inl e | Inr is \<Rightarrow>
    (case read_csv (DATA_DIR @ ''olist_order_payments_dataset.csv'') (payments_csv d) of Inl e \<Rightarrow> Inl e | Inr ps \<Rightarrow>
    (case read_csv (DATA_DIR @ ''olist_order_reviews_dataset.csv'') (reviews_csv d) of Inl e \<Rightarrow> Inl e | Inr rs \<Rightarrow>
    (case read_csv (DATA_DIR @ ''olist_customers_dataset.csv'') (customers_csv d) of Inl e \<Rightarrow> Inl e | Inr cs \<Rightarrow>
    (case read_csv (DATA_DIR @ ''olist_products_dataset.csv'') (products_csv d) of Inl e \<Rightarrow> Inl e | Inr prs \<Rightarrow>
    (case read_csv (DATA_DIR @ ''olist_sellers_dataset.csv'') (sellers_csv d) of Inl e \<Rightarrow> Inl e | Inr ss \<Rightarrow>
    (case read_csv (DATA_DIR @ ''product_category_name_translation.csv'') (translations_csv d) of Inl e \<Rightarrow> Inl e | Inr ts \<Rightarrow>
     Inr \<lparr> orders = os, items = is, payments = ps, reviews = rs, customers = cs,
           products = prs, sellers = ss, category_translations = ts \<rparr>))))))))"

text \<open>
  \<^verbatim>\<open>data_pipeline.py\<close> is a script: an exception that nothing catches ends it, and the
  reads are its first statements. What follows them is a parameter, \<open>rest\<close>: the
  transformations, each of which can raise, and at the very end the only write to
  \<^verbatim>\<open>output/dashboard_data.json\<close>, which can raise after the file was opened and leave it
  truncated. \<open>rest\<close> takes the tables and the state of the output file and returns how
  the script ended and the new state of the file; nothing is assumed about it.
\<close>

definition run_pipeline :: "(raw_tables \<Rightarrow> 'file \<Rightarrow> 'res \<times> 'file) \<Rightarrow> data_dir \<Rightarrow> 'file
    \<Rightarrow> (error + 'res) \<times> 'file" where
  "run_pipeline rest d out =
     (case load_tables d of
        Inl e \<Rightarrow> (Inl e, out)
      | Inr T \<Rightarrow> (case rest T out of (res, out') \<Rightarrow> (Inr res, out')))"

text \<open>
  \<^verbatim>\<open>load_data\<close> of \<^verbatim>\<open>streamlit_app.py\<close> catches FileNotFoundError around the reads, shows
  a fixed message with \<^verbatim>\<open>st.error\<close> and returns \<open>None\<close>s, on which the script stops;
  \<open>Inl\<close> is the message shown. What it does with the tables after the reads (parsing,
  filtering, merging: \<open>st_master\<close> above) can raise and is a parameter here.
\<close>

definition load_data :: "(raw_tables \<Rightarrow> 'res) \<Rightarrow> data_dir \<Rightarrow> string + 'res" where
  "load_data derive d =
     (case load_tables d of
        Inl (FileNotFoundError _) \<Rightarrow>
          Inl ''Data files not found. Please ensure the CSV files are in the `data/` folder.''
      | Inr T \<Rightarrow> Inr (derive T))"

subsection \<open>Reference notions and sample data\<close>

text \<open>The text of a timestamp, \<^verbatim>\<open>YYYY-MM-DD HH:MM:SS\<close>, as pandas prints it.\<close>

definition timestamp_str :: "timestamp \<Rightarrow> string" where
  "timestamp_str t =
     zfill 4 (dec (ts_year t)) @ ''-'' @ zfill 2 (dec (ts_month t)) @ ''-'' @
     zfill 2 (dec (ts_day t)) @ '' '' @ zfill 2 (dec (ts_hour t)) @ '':'' @
     zfill 2 (dec (ts_minute t)) @ '':'' @ zfill 2 (dec (ts_second t))"

text \<open>
  A small data set: order \<open>o1\<close> (two items, paid in two parts) and \<open>o6\<close> are delivered
  inside the window, \<open>o2\<close> is delivered with an unparsable purchase date, \<open>o3\<close> is
  delivered before the window, \<open>o4\<close> and \<open>o5\<close> have other statuses.
\<close>

definition ex_ts :: timestamp where
  "ex_ts = \<lparr> ts_year = 2017, ts_month = 2, ts_day = 3, ts_hour = 10, ts_minute = 5, ts_second = 9 \<rparr>"

definition ex_order :: order where
  "ex_order = \<lparr> o_order_id = Some ''o1'', o_customer_id = Some ''c1'',
     order_status = Some ''delivered'', order_purchase_timestamp = Some ex_ts \<rparr>"

definition ex_orders :: "order list" where
  "ex_orders =
    [ex_order,
     \<lparr> o_order_id = Some ''o2'', o_customer_id = Some ''c2'', order_status = Some ''delivered'',
       order_purchase_timestamp = None \<rparr>,
     \<lparr> o_order_id = Some ''o3'', o_customer_id = Some ''c1'', order_status = Some ''delivered'',
       order_purchase_timestamp = Some (ex_ts \<lparr> ts_year := 2016, ts_month := 10 \<rparr>) \<rparr>,
     \<lparr> o_order_id = Some ''o4'', o_customer_id = Some ''c2'', order_status = Some ''shipped'',
       order_purchase_timestamp = Some (ex_ts \<lparr> ts_month := 3 \<rparr>) \<rparr>,
     \<lparr> o_order_id = Some ''o5'', o_customer_id = Some ''c2'', order_status = Some ''Delivered'',
       order_purchase_timestamp = Some (ex_ts \<lparr> ts_month := 5 \<rparr>) \<rparr>,
     \<lparr> o_order_id = Some ''o6'', o_customer_id = Some ''c2'', order_status = Some ''delivered'',
       order_purchase_timestamp = Some (ex_ts \<lparr> ts_month := 5 \<rparr>) \<rparr>]"

definition ex_items :: "item list" where
  "ex_items =
    [\<lparr> i_order_id = Some ''o1'', i_product_id = Some ''p1'', i_seller_id = Some ''s1'',
       price = Some 10, freight_value = Some 2 \<rparr>,
     \<lparr> i_order_id = Some ''o1'', i_product_id = Some ''p2'', i_seller_id = Some ''s1'',
       price = Some (41 / 2), freight_value = Some 3 \<rparr>,
     \<lparr> i_order_id = Some ''o2'', i_product_id = Some ''p1'', i_seller_id = Some ''s1'',
       price = Some 5, freight_value = Some 1 \<rparr>,
     \<lparr> i_order_id = Some ''o3'', i_product_id = Some ''p3'', i_seller_id = Some ''s2'',
       price = Some 7, freight_value = Some 1 \<rparr>,
     \<lparr> i_order_id = Some ''o6'', i_product_id = Some ''p3'', i_seller_id = Some ''s2'',
       price = Some 15, freight_value = Some 4 \<rparr>]"

definition ex_products :: "product list" where
  "ex_products =
    [\<lparr> pr_product_id = Some ''p1'', pr_product_category_name = Some ''beleza_saude'' \<rparr>,
     \<lparr> pr_product_id = Some ''p2'', pr_product_category_name = None \<rparr>,
     \<lparr> pr_product_id = Some ''p3'', pr_product_category_name = Some ''pc_gamer'' \<rparr>]"

definition ex_translations :: "translation list" where
  "ex_translations =
    [\<lparr> t_product_category_name = Some ''beleza_saude'',
       t_product_category_name_english = Some ''health_beauty'' \<rparr>]"

definition ex_payments :: "payment list" where
  "ex_payments =
    [\<lparr> p_order_id = Some ''o1'', payment_type = Some ''credit_card'',
       payment_installments = Some 3, payment_value = Some 20 \<rparr>,
     \<lparr> p_order_id = Some ''o1'', payment_type = Some ''voucher'',
       payment_installments = Some 1, payment_value = Some (31 / 2) \<rparr>,
     \<lparr> p_order_id = Some ''o2'', payment_type = Some ''boleto'',
       payment_installments = Some 1, payment_value = Some 6 \<rparr>,
     \<lparr> p_order_id = Some ''o3'', payment_type = Some ''credit_card'',
       payment_installments = Some 0, payment_value = Some 8 \<rparr>,
     \<lparr> p_order_id = Some ''o6'', payment_type = Some ''credit_card'',
       payment_installments = Some 24, payment_value = Some 19 \<rparr>]"

definition ex_customers :: "customer list" where
  "ex_customers =
    [\<lparr> c_customer_id = Some ''c1'', customer_state = Some ''SP'', customer_city = Some ''sao paulo'' \<rparr>,
     \<lparr> c_customer_id = Some ''c2'', customer_state = Some ''RJ'', customer_city = Some ''niteroi'' \<rparr>]"

definition ex_sellers :: "seller list" where
  "ex_sellers =
    [\<lparr> s_seller_id = Some ''s1'', seller_state = Some ''SP'', seller_city = Some ''campinas'' \<rparr>]"

definition ex_tables :: raw_tables where
  "ex_tables = \<lparr> orders = ex_orders, items = ex_items, payments = ex_payments, reviews = [],
     customers = ex_customers, products = ex_products, sellers = ex_sellers,
     category_translations = ex_translations \<rparr>"

text \<open>The translation table of the sample data with one more row, whose local category name
  is missing.\<close>

definition cx_nan_key_translations :: "translation list" where
  "cx_nan_key_translations =
     ex_translations @
     [\<lparr> t_product_category_name = None, t_product_category_name_english = Some ''misc'' \<rparr>]"

text \<open>The sample data with an order table that holds no delivered order.\<close>

definition no_delivered_tables :: raw_tables where
  "no_delivered_tables = ex_tables \<lparr> orders :=
     [\<lparr> o_order_id = Some ''o1'', o_customer_id = Some ''c1'', order_status = Some ''shipped'',
        order_purchase_timestamp = Some ex_ts \<rparr>] \<rparr>"

text \<open>\<open>k\<close> is the integer nearest to \<open>y\<close>, the even one of two that are equally near.\<close>

definition nearest_even :: "int \<Rightarrow> rat \<Rightarrow> bool" where
  "nearest_even k y \<longleftrightarrow>
     \<bar>of_int k - y\<bar> \<le> 1 / 2 \<and> (\<bar>of_int k - y\<bar> = 1 / 2 \<longrightarrow> even k)"

text \<open>The sample data with one item of 80 in the first quarter of 2017 and one of 87 in the
  second.\<close>

definition cx_growth_tables :: raw_tables where
  "cx_growth_tables = ex_tables \<lparr> items :=
     [(ex_items ! 0) \<lparr> price := Some 80 \<rparr>, (ex_items ! 4) \<lparr> price := Some 87 \<rparr>] \<rparr>"

text \<open>The installment counts that occur among credit-card payments.\<close>

definition credit_card_installment_counts :: "payment list \<Rightarrow> int set" where
  "credit_card_installment_counts pm =
     {n. \<exists>p\<in>set pm. payment_type p = Some ''credit_card'' \<and> payment_installments p = Some n}"

text \<open>
  The expected files with their presence, in reading order; the paths of those that are
  absent; the message of \<^verbatim>\<open>st.error\<close>; and whether a text occurs inside another.
\<close>

definition expected_files :: "data_dir \<Rightarrow> (string \<times> bool) list" where
  "expected_files d =
     [(DATA_DIR @ ''olist_orders_dataset.csv'', orders_csv d \<noteq> None),
      (DATA_DIR @ ''olist_order_items_dataset.csv'', items_csv d \<noteq> None),
      (DATA_DIR @ ''olist_order_payments_dataset.csv'', payments_csv d \<noteq> None),
      (DATA_DIR @ ''olist_order_reviews_dataset.csv'', reviews_csv d \<noteq> None),
      (DATA_DIR @ ''olist_customers_dataset.csv'', customers_csv d \<noteq> None),
      (DATA_DIR @ ''olist_products_dataset.csv'', products_csv d \<noteq> None),
      (DATA_DIR @ ''olist_sellers_dataset.csv'', sellers_csv d \<noteq> None),
      (DATA_DIR @ ''product_category_name_translation.csv'', translations_csv d \<noteq> None)]"

definition missing_files :: "data_dir \<Rightarrow> string list" where
  "missing_files d = map fst (filter (\<lambda>(p, present). \<not> present) (expected_files d))"

definition not_found_message :: string where
  "not_found_message =
     ''Data files not found. Please ensure the CSV files are in the `data/` folder.''"

fun contains :: "string \<Rightarrow> string \<Rightarrow> bool" where
  "contains s [] = (s = [])"
| "contains s (c # cs) = (take (length s) (c # cs) = s \<or> contains s cs)"

text \<open>A data directory holding the sample data, and the same without the sellers file.\<close>

definition ex_dir :: data_dir where
  "ex_dir = \<lparr> orders_csv = Some ex_orders, items_csv = Some ex_items,
     payments_csv = Some ex_payments, reviews_csv = Some [], customers_csv = Some ex_customers,
     products_csv = Some ex_products, sellers_csv = Some ex_sellers,
     translations_csv = Some ex_translations \<rparr>"

definition ex_dir_no_sellers :: data_dir where
  "ex_dir_no_sellers = ex_dir \<lparr> sellers_csv := None \<rparr>"

text \<open>The master table of the sample data, the categories filled (pandas before 3).\<close>

definition ex_master :: "master_row list" where
  "ex_master =
    [\<lparr> mr_order = add_time_dims ex_order,
       mr_item = item.extend (ex_items ! 0) \<lparr> product_category_name = Some ''beleza_saude'',
          product_category_name_english = Some ''health_beauty'' \<rparr>,
       mr_payment = Some \<lparr> op_order_id = ''o1'', op_payment_value = 71 / 2,
          op_payment_type = Some ''credit_card'', op_max_installments = Some 3 \<rparr>,
       mr_customer = Some (ex_customers ! 0), mr_seller = Some (ex_sellers ! 0) \<rparr>,
     \<lparr> mr_order = add_time_dims ex_order,
       mr_item = item.extend (ex_items ! 1) \<lparr> product_category_name = None,
          product_category_name_english = Some ''other'' \<rparr>,
       mr_payment = Some \<lparr> op_order_id = ''o1'', op_payment_value = 71 / 2,
          op_payment_type = Some ''credit_card'', op_max_installments = Some 3 \<rparr>,
       mr_customer = Some (ex_customers ! 0), mr_seller = Some (ex_sellers ! 0) \<rparr>,
     \<lparr> mr_order = add_time_dims (ex_orders ! 5),
       mr_item = item.extend (ex_items ! 4) \<lparr> product_category_name = Some ''pc_gamer'',
          product_category_name_english = Some ''other'' \<rparr>,
       mr_payment = Some \<lparr> op_order_id = ''o6'', op_payment_value = 19,
          op_payment_type = Some ''credit_card'', op_max_installments = Some 24 \<rparr>,
       mr_customer = Some (ex_customers ! 1), mr_seller = None \<rparr>]"

section \<open>Properties\<close>

subsection \<open>Auxiliary facts about the primitives\<close>

lemma merge_inner_set:
  "(l, r) \<in> set (merge_inner kl kr ls rs) \<longleftrightarrow> l \<in> set ls \<and> r \<in> set rs \<and> kr r = kl l"
  by (auto simp: merge_inner_def)

lemma merge_left_set:
  "(l, ro) \<in> set (merge_left kl kr ls rs) \<longleftrightarrow>
     l \<in> set ls \<and> (case ro of None \<Rightarrow> \<forall>r\<in>set rs. kr r \<noteq> kl l
                             | Some r \<Rightarrow> r \<in> set rs \<and> kr r = kl l)"
proof -
  have *: "(l, ro) \<in> set (case filter P rs of [] \<Rightarrow> [(l', None)] | ms \<Rightarrow> map (\<lambda>r. (l', Some r)) ms)
        \<longleftrightarrow> l = l' \<and> (case ro of None \<Rightarrow> \<forall>r\<in>set rs. \<not> P r | Some r \<Rightarrow> r \<in> set rs \<and> P r)"
    for P l'
  proof (cases "filter P rs")
    case Nil
    then have "\<forall>r\<in>set rs. \<not> P r" by (simp add: filter_empty_conv)
    with Nil show ?thesis by (auto split: option.splits)
  next
    case (Cons a ms)
    have s: "set (a # ms) = {r \<in> set rs. P r}"
      unfolding Cons[symmetric] by simp
    then have "a \<in> set rs" "P a" by auto
    then show ?thesis
      unfolding Cons list.case set_map s by (auto split: option.splits)
  qed
  show ?thesis
    unfolding merge_left_def set_concat set_map by (auto simp: *)
qed

lemma set_notna: "set (notna cs) = {x. Some x \<in> set cs}"
  by (induction cs) (auto simp: notna_def split: option.splits)

lemma group_keys_set: "set (group_keys key rows) = {k. Some k \<in> key ` set rows}"
  by (auto simp: group_keys_def set_notna image_iff)

text \<open>Unfolding sets for evaluating the tables of the sample data.\<close>

lemmas table_defs =
  merge_left_def merge_inner_def group_keys_def group_rows_def notna_def agg_sum_def
  agg_first_def agg_max_def agg_count_def agg_nunique_def agg_mean_def fillna_def Let_def

lemmas cleaner_defs =
  delivered_def add_time_dims_def order.extend_def in_window_def period_M_str_def
  period_Q_str_def zfill_def dec.simps digit_char_def

lemmas joiner_defs =
  items_enriched_def items_e_def items_merged_def item.extend_def enriched_item.extend_def
  order_payments_def master_def master_of_def master_merged_def st_master_def

lemmas ex_defs =
  ex_tables_def ex_orders_def ex_order_def ex_ts_def ex_items_def ex_products_def
  ex_translations_def ex_payments_def ex_customers_def ex_sellers_def

subsection \<open>Delivered orders and their calendar buckets\<close>

lemma dec_small: "n < 10 \<Longrightarrow> dec n = [digit_char n]"
  by (simp add: dec.simps)

lemma length_dec_year: "1000 \<le> n \<Longrightarrow> n \<le> 9999 \<Longrightarrow> length (dec n) = 4"
proof -
  assume a: "1000 \<le> n" "n \<le> 9999"
  have 1: "\<not> n < 10" "\<not> n div 10 < 10" "\<not> n div 10 div 10 < 10" "n div 10 div 10 div 10 < 10"
    using a by auto
  show ?thesis
    by (subst dec.simps, simp only: 1 if_False, subst dec.simps, simp only: 1 if_False,
        subst dec.simps, simp only: 1 if_False, subst dec.simps, simp only: 1 if_True) simp
qed

lemma length_zfill: "length (zfill w s) = max w (length s)"
  by (simp add: zfill_def)

lemma length_zfill2_month: "n \<le> 12 \<Longrightarrow> length (zfill 2 (dec n)) = 2"
proof -
  assume a: "n \<le> 12"
  show ?thesis
  proof (cases "n < 10")
    case True
    then show ?thesis by (simp add: zfill_def dec_small)
  next
    case False
    then have "n div 10 < 10" using a by auto
    with False show ?thesis
      by (subst dec.simps, simp only: if_False, subst dec.simps, simp add: zfill_def)
  qed
qed

lemma delivered_row:
  "r \<in> set (delivered os) \<Longrightarrow>
     \<exists>o'\<in>set os. order_status o' = Some ''delivered'' \<and> r = add_time_dims o'"
  by (auto simp: delivered_def)

lemma add_time_dims_sel:
  "order_purchase_timestamp (add_time_dims o') = order_purchase_timestamp o'"
  "order_status (add_time_dims o') = order_status o'"
  "o_order_id (add_time_dims o') = o_order_id o'"
  "o_customer_id (add_time_dims o') = o_customer_id o'"
  "year_month (add_time_dims o') = period_M_str (order_purchase_timestamp o')"
  "quarter (add_time_dims o') = period_Q_str (order_purchase_timestamp o')"
  by (simp_all add: add_time_dims_def order.extend_def)

lemma quarter_number:
  assumes "1 \<le> (m::nat)" "m \<le> 12"
  shows "1 \<le> (m - 1) div 3 + 1" "(m - 1) div 3 + 1 \<le> 4"
    "3 * ((m - 1) div 3 + 1 - 1) < m" "m \<le> 3 * ((m - 1) div 3 + 1)"
  using assms by auto

text \<open>
  Claim C8, as amended. For a delivered order whose purchase timestamp parsed (a calendar
  date with a four-digit year), \<open>year_month\<close> is the first seven characters
  \<^verbatim>\<open>YYYY-MM\<close> of the timestamp, and \<open>quarter\<close> is the year, the letter \<^verbatim>\<open>Q\<close> and the
  1-based quarter \<open>q\<close> of the month (months \<open>3q - 2\<close> to \<open>3q\<close>), with no hyphen between
  them: \<^verbatim>\<open>2017Q1\<close>.
\<close>

theorem time_dims_of_delivered:
  assumes "r \<in> set (delivered os)" and "order_purchase_timestamp r = Some t"
    and "1000 \<le> ts_year t" and "ts_year t \<le> 9999" and "1 \<le> ts_month t" and "ts_month t \<le> 12"
  shows "year_month r = take 7 (timestamp_str t) \<and>
    (\<exists>q. 1 \<le> q \<and> q \<le> 4 \<and> 3 * (q - 1) < ts_month t \<and> ts_month t \<le> 3 * q \<and>
       quarter r = take 4 (timestamp_str t) @ ''Q'' @ [digit_char q])"
proof -
  obtain o' where o': "r = add_time_dims o'" using assms(1) delivered_row by blast
  have ts: "order_purchase_timestamp o' = Some t"
    using assms(2) by (simp add: o' add_time_dims_sel)
  have ly: "length (zfill 4 (dec (ts_year t))) = 4"
    using assms(3,4) by (simp add: length_zfill length_dec_year)
  have lm: "length (zfill 2 (dec (ts_month t))) = 2"
    using assms(6) by (rule length_zfill2_month)
  have ym: "year_month r = take 7 (timestamp_str t)"
    by (simp add: o' add_time_dims_sel ts period_M_str_def timestamp_str_def ly lm)
  let ?q = "(ts_month t - 1) div 3 + 1"
  have q4: "?q < 10" using assms(6) by auto
  have "quarter r = take 4 (timestamp_str t) @ ''Q'' @ [digit_char ?q]"
    using q4 by (simp add: dec_small o' add_time_dims_sel ts period_Q_str_def timestamp_str_def ly)
  moreover have "1 \<le> ?q \<and> ?q \<le> 4 \<and> 3 * (?q - 1) < ts_month t \<and> ts_month t \<le> 3 * ?q"
    using quarter_number[OF assms(5,6)] by blast
  ultimately show ?thesis using ym by blast
qed

lemma ex_ts_str: "timestamp_str ex_ts = ''2017-02-03 10:05:09''"
  by (simp add: timestamp_str_def ex_ts_def zfill_def dec.simps digit_char_def)

text \<open>The order of 3 February 2017, 10:05:09.\<close>

theorem time_dims_of_delivered_witness:
  "year_month (add_time_dims ex_order) = ''2017-02'' \<and> quarter (add_time_dims ex_order) = ''2017Q1''"
proof -
  have m: "add_time_dims ex_order \<in> set (delivered [ex_order])"
    by (simp add: delivered_def ex_order_def)
  have t: "order_purchase_timestamp (add_time_dims ex_order) = Some ex_ts"
    by (simp add: add_time_dims_sel ex_order_def)
  have b: "1000 \<le> ts_year ex_ts" "ts_year ex_ts \<le> 9999" "1 \<le> ts_month ex_ts" "ts_month ex_ts \<le> 12"
    by (simp_all add: ex_ts_def)
  from time_dims_of_delivered[OF m t b]
  obtain q where ym: "year_month (add_time_dims ex_order) = take 7 (timestamp_str ex_ts)"
    and q: "1 \<le> q" "3 * (q - 1) < ts_month ex_ts"
    and qu: "quarter (add_time_dims ex_order) = take 4 (timestamp_str ex_ts) @ ''Q'' @ [digit_char q]"
    by blast
  have "q = 1" using q by (simp add: ex_ts_def)
  with ym qu show ?thesis by (simp add: ex_ts_str digit_char_def)
qed

text \<open>
  Claim C8 as stated gives the quarter as \<^verbatim>\<open>YYYY-Q#\<close>. The order of 3 February 2017
  gets the quarter \<^verbatim>\<open>2017Q1\<close>, not \<^verbatim>\<open>2017-Q1\<close>; \<^verbatim>\<open>streamlit_app.py\<close> compares the
  column with \<^verbatim>\<open>'2017Q1'\<close> accordingly.
\<close>

theorem quarter_hyphen_counterexample:
  "map quarter (delivered [ex_order]) = [''2017Q1''] \<and> ''2017Q1'' \<noteq> ''2017-Q1''"
  by (simp add: delivered_def ex_order_def ex_ts_def add_time_dims_sel period_Q_str_def
        zfill_def digit_char_def dec.simps)

subsection \<open>The master table and its window\<close>

lemma NaT_outside_window: "\<not> in_window ''NaT''"
  by (simp add: in_window_def)

lemma delivered_in_window_parsed:
  assumes "d \<in> set (delivered os)" and "in_window (year_month d)"
  shows "order_purchase_timestamp d \<noteq> None"
proof
  assume n: "order_purchase_timestamp d = None"
  obtain o' where "d = add_time_dims o'" using assms(1) delivered_row by blast
  with n have "year_month d = ''NaT''"
    by (simp add: add_time_dims_sel period_M_str_def)
  with assms(2) show False by (simp add: NaT_outside_window)
qed

lemma master_merged_parts:
  assumes "r \<in> set (master_merged dl ie ops cs ss)"
  shows "mr_order r \<in> set dl" and "mr_item r \<in> set ie"
    and "i_order_id (mr_item r) = o_order_id (mr_order r)"
  using assms
  by (auto simp: master_merged_def merge_left_set merge_inner_set)

lemma master_rows:
  assumes "r \<in> set (master cow T)"
  shows "in_window (year_month (mr_order r))"
    and "mr_order r \<in> set (delivered (orders T))"
    and "mr_item r \<in> set (items_enriched cow (items T) (products T) (category_translations T))"
  using assms by (auto simp: master_def master_of_def dest: master_merged_parts)

lemma st_master_rows:
  assumes "r \<in> set (st_master T)"
  shows "in_window (year_month (sm_order r))"
    and "sm_order r \<in> set (delivered (orders T))"
    and "sm_item r \<in> set (items_e (items T) (products T) (category_translations T))"
  using assms by (auto simp: st_master_def merge_left_set merge_inner_set)

lemma monthly_keys:
  "g \<in> set (monthly m) \<Longrightarrow> \<exists>r\<in>set m. mo_year_month g = year_month (mr_order r)"
  by (auto simp: monthly_def group_keys_set Let_def)

text \<open>
  Claim C2. In both entry points every row of the master table has \<open>year_month\<close> between
  \<^verbatim>\<open>2017-01\<close> and \<^verbatim>\<open>2018-08\<close> in the order of strings, both ends included, and its
  purchase timestamp parsed: an unparsable timestamp gives the \<open>year_month\<close> text
  \<^verbatim>\<open>NaT\<close>, which lies above \<^verbatim>\<open>2018-08\<close>. The months of the monthly aggregate, being
  those of master rows, lie in the window too.
\<close>

theorem master_rows_in_window:
  "(\<forall>r\<in>set (master cow T). ''2017-01'' \<le> year_month (mr_order r) \<and>
        year_month (mr_order r) \<le> ''2018-08'' \<and> order_purchase_timestamp (mr_order r) \<noteq> None) \<and>
   (\<forall>r\<in>set (st_master T). ''2017-01'' \<le> year_month (sm_order r) \<and>
        year_month (sm_order r) \<le> ''2018-08'' \<and> order_purchase_timestamp (sm_order r) \<noteq> None) \<and>
   (\<forall>g\<in>set (monthly (master cow T)). ''2017-01'' \<le> mo_year_month g \<and> mo_year_month g \<le> ''2018-08'')"
proof (intro conjI ballI)
  fix r assume r: "r \<in> set (master cow T)"
  from master_rows(1)[OF r]
  show "''2017-01'' \<le> year_month (mr_order r)" and "year_month (mr_order r) \<le> ''2018-08''"
    by (simp_all only: in_window_def)
  show "order_purchase_timestamp (mr_order r) \<noteq> None"
    using master_rows(1,2)[OF r] by (rule delivered_in_window_parsed[rotated])
next
  fix r assume r: "r \<in> set (st_master T)"
  from st_master_rows(1)[OF r]
  show "''2017-01'' \<le> year_month (sm_order r)" and "year_month (sm_order r) \<le> ''2018-08''"
    by (simp_all only: in_window_def)
  show "order_purchase_timestamp (sm_order r) \<noteq> None"
    using st_master_rows(1,2)[OF r] by (rule delivered_in_window_parsed[rotated])
next
  fix g assume "g \<in> set (monthly (master cow T))"
  then obtain r where r: "r \<in> set (master cow T)" and g: "mo_year_month g = year_month (mr_order r)"
    using monthly_keys by blast
  from master_rows(1)[OF r]
  show "''2017-01'' \<le> mo_year_month g" and "mo_year_month g \<le> ''2018-08''"
    by (simp_all only: in_window_def g)
qed

lemma ex_master_eq: "master False ex_tables = ex_master"
  by (simp add: table_defs cleaner_defs joiner_defs ex_defs ex_master_def)

lemma ex_master_cols:
  "map m_order_id ex_master = [Some ''o1'', Some ''o1'', Some ''o6'']"
  "map m_year_month ex_master = [Some ''2017-02'', Some ''2017-02'', Some ''2017-05'']"
  by (simp_all add: ex_master_def cleaner_defs ex_defs)

lemma ex_st_master_order_ids:
  "map (\<lambda>r. o_order_id (sm_order r)) (st_master ex_tables) = [Some ''o1'', Some ''o1'', Some ''o6'']"
  by (simp add: table_defs cleaner_defs joiner_defs ex_defs)

lemma ex_master_order_ids:
  "map m_order_id (master cow ex_tables) = [Some ''o1'', Some ''o1'', Some ''o6'']"
  by (cases cow) (simp_all add: table_defs cleaner_defs joiner_defs ex_defs)

lemma ex_aggregates:
  "map (\<lambda>g. (mo_year_month g, mo_orders g)) (monthly ex_master) = [(''2017-02'', 1), (''2017-05'', 1)]"
  "map (\<lambda>g. (ca_category g, ca_orders g)) (categories ex_master)
     = [(''other'', 2), (''health_beauty'', 1)]"
  "map (\<lambda>g. (st_customer_state g, st_orders g)) (states ex_master) = [(''SP'', 1), (''RJ'', 1)]"
  "map (\<lambda>g. (q_quarter g, q_orders g, q_revenue g)) (quarterly ex_master)
     = [(''2017Q1'', 1, 61 / 2), (''2017Q2'', 1, 15)]"
  by (simp_all add: monthly_def categories_def states_def quarterly_def quarterly_grouped_def
        quarterly_row.extend_def item.extend_def table_defs cleaner_defs ex_defs ex_master_def)

lemma ex_monthly_keys:
  "map mo_year_month (monthly (master cow ex_tables)) = [''2017-02'', ''2017-05'']"
  by (cases cow) (simp_all add: monthly_def table_defs cleaner_defs joiner_defs ex_defs)

text \<open>The first rows of both master tables and of the monthly aggregate of the sample data
  lie in the window; the order \<open>o2\<close> without purchase date is in neither table.\<close>

theorem master_rows_in_window_witness:
  "master True ex_tables \<noteq> [] \<and> st_master ex_tables \<noteq> [] \<and> monthly (master True ex_tables) \<noteq> [] \<and>
   ''2017-01'' \<le> year_month (mr_order (hd (master True ex_tables))) \<and>
   year_month (mr_order (hd (master True ex_tables))) \<le> ''2018-08'' \<and>
   order_purchase_timestamp (mr_order (hd (master True ex_tables))) \<noteq> None \<and>
   ''2017-01'' \<le> year_month (sm_order (hd (st_master ex_tables))) \<and>
   year_month (sm_order (hd (st_master ex_tables))) \<le> ''2018-08'' \<and>
   order_purchase_timestamp (sm_order (hd (st_master ex_tables))) \<noteq> None \<and>
   ''2017-01'' \<le> mo_year_month (hd (monthly (master True ex_tables))) \<and>
   mo_year_month (hd (monthly (master True ex_tables))) \<le> ''2018-08''"
proof -
  have 1: "master True ex_tables \<noteq> []" using ex_master_order_ids[of True] by auto
  have 2: "st_master ex_tables \<noteq> []" using ex_st_master_order_ids by auto
  have 3: "monthly (master True ex_tables) \<noteq> []" using ex_monthly_keys[of True] by auto
  have "hd (master True ex_tables) \<in> set (master True ex_tables)"
    "hd (st_master ex_tables) \<in> set (st_master ex_tables)"
    "hd (monthly (master True ex_tables)) \<in> set (monthly (master True ex_tables))"
    using 1 2 3 by simp_all
  with master_rows_in_window[of True ex_tables] 1 2 3 show ?thesis by blast
qed

subsection \<open>Enriched items and their category\<close>

lemma fillna_not_None: "fillna v c \<noteq> None"
  by (simp add: fillna_def split: option.splits)

lemma items_merged_row:
  assumes "r \<in> set (items_merged I P Tr)"
  shows "(product_category_name_english r = None) \<or>
     (\<exists>t\<in>set Tr. t_product_category_name t = product_category_name r \<and>
         product_category_name_english r = t_product_category_name_english t)"
proof -
  from assms obtain i c tr where
    m: "((i, c), tr) \<in> set (merge_left snd t_product_category_name
          (map (\<lambda>(i, p). (i, Option.bind p pr_product_category_name))
             (merge_left i_product_id pr_product_id I P)) Tr)"
    and r: "r = item.extend i \<lparr> product_category_name = c,
              product_category_name_english = Option.bind tr t_product_category_name_english \<rparr>"
    unfolding items_merged_def by auto
  have sel: "product_category_name r = c"
    "product_category_name_english r = Option.bind tr t_product_category_name_english"
    by (simp_all add: r item.extend_def)
  show ?thesis
  proof (cases tr)
    case None
    then show ?thesis by (simp add: sel)
  next
    case (Some t)
    with m have "t \<in> set Tr" "t_product_category_name t = c"
      by (auto simp: merge_left_set)
    with Some show ?thesis by (auto simp: sel)
  qed
qed

lemma items_merged_untranslated:
  assumes "r \<in> set (items_merged I P Tr)"
    and "\<forall>t\<in>set Tr. t_product_category_name t = product_category_name r \<longrightarrow>
            t_product_category_name_english t = None"
  shows "product_category_name_english r = None"
  using items_merged_row[OF assms(1)] assms(2) by auto

text \<open>
  The batch pipeline. Without copy-on-write its in-place fill reaches the frame and no
  category is missing; with copy-on-write the frame is the merged one, and in the sample
  data three of the five rows keep a missing category.
\<close>

lemma items_enriched_filled:
  assumes "r \<in> set (items_enriched False I P Tr)"
  shows "product_category_name_english r \<noteq> None"
proof -
  from assms obtain r0 where
    "r = r0\<lparr>product_category_name_english := fillna ''other'' (product_category_name_english r0)\<rparr>"
    unfolding items_enriched_def by auto
  then show ?thesis by (simp add: fillna_not_None)
qed

lemma items_enriched_copy_on_write:
  "map product_category_name_english (items_enriched True ex_items ex_products ex_translations)
     = [Some ''health_beauty'', None, Some ''health_beauty'', None, None]"
  by (simp add: table_defs joiner_defs ex_defs)

text \<open>
  Claim C3, as amended. In \<^verbatim>\<open>streamlit_app.py\<close> every row of the enriched items has a
  \<open>category\<close> that is not missing, and it is exactly \<^verbatim>\<open>other\<close> whenever the translation
  table gives the row's category name no English name: no translation row has that name
  with an English name present. A missing category name is looked up like any other name,
  so it is found by a translation row whose own local name is missing. The replacement is
  made before the merge into the master table of \<^verbatim>\<open>streamlit_app.py\<close>, whose rows
  therefore all carry a category. (Where a merge raises there is no table.) The in-place
  fill of \<^verbatim>\<open>data_pipeline.py\<close>, which depends on the version of pandas, is not part of
  the statement.
\<close>

theorem enriched_category_never_missing:
  "(\<forall>r\<in>set (items_e I P Tr).
      category r \<noteq> None \<and>
      ((\<forall>t\<in>set Tr. t_product_category_name t = product_category_name r \<longrightarrow>
            t_product_category_name_english t = None)
        \<longrightarrow> category r = Some ''other'')) \<and>
   (\<forall>r\<in>set (st_master T). category (sm_item r) \<noteq> None)"
proof -
  have b: "category r \<noteq> None \<and>
      ((\<forall>t\<in>set Tr. t_product_category_name t = product_category_name r \<longrightarrow>
            t_product_category_name_english t = None)
        \<longrightarrow> category r = Some ''other'')"
    if "r \<in> set (items_e I P Tr)" for r I P Tr
  proof -
    from that obtain r0 where r0: "r0 \<in> set (items_merged I P Tr)"
      and r: "r = enriched_item.extend r0
            \<lparr> category = fillna ''other'' (product_category_name_english r0) \<rparr>"
      unfolding items_e_def by auto
    have pc: "product_category_name r = product_category_name r0"
      and en: "category r = fillna ''other'' (product_category_name_english r0)"
      by (simp_all add: r enriched_item.extend_def)
    have 1: "category r \<noteq> None"
      by (simp only: en fillna_not_None not_False_eq_True)
    have 2: "category r = Some ''other''"
      if "\<forall>t\<in>set Tr. t_product_category_name t = product_category_name r \<longrightarrow>
            t_product_category_name_english t = None"
      using items_merged_untranslated[OF r0] that by (simp add: pc en fillna_def)
    from 1 2 show ?thesis by blast
  qed
  have d: "category (sm_item r) \<noteq> None" if "r \<in> set (st_master T)" for r
    using b st_master_rows(3)[OF that] by blast
  show ?thesis using b d by blast
qed

lemma ex_items_e_cols:
  "map product_category_name (items_e ex_items ex_products ex_translations)
     = [Some ''beleza_saude'', None, Some ''beleza_saude'', Some ''pc_gamer'', Some ''pc_gamer'']"
  by (simp add: table_defs joiner_defs ex_defs)

text \<open>In the sample data the second item has a product without category and the fourth a
  category without translation: both get \<^verbatim>\<open>other\<close>.\<close>

theorem enriched_category_never_missing_witness:
  "category (items_e ex_items ex_products ex_translations ! 1) = Some ''other'' \<and>
   category (items_e ex_items ex_products ex_translations ! 3) = Some ''other'' \<and>
   category (sm_item (hd (st_master ex_tables))) \<noteq> None"
proof -
  let ?S = "items_e ex_items ex_products ex_translations"
  have "length (map product_category_name ?S) = 5"
    unfolding ex_items_e_cols by simp
  then have len: "length ?S = 5" by simp
  have mem: "?S ! 1 \<in> set ?S" "?S ! 3 \<in> set ?S"
    by (simp_all add: len)
  have c: "product_category_name (?S ! 1) = None" "product_category_name (?S ! 3) = Some ''pc_gamer''"
    using ex_items_e_cols[THEN arg_cong, of "\<lambda>xs. xs ! 1"]
      ex_items_e_cols[THEN arg_cong, of "\<lambda>xs. xs ! 3"] by (simp_all add: len)
  have h: "\<forall>t\<in>set ex_translations. t_product_category_name t = c \<longrightarrow>
      t_product_category_name_english t = None" if "c = None \<or> c = Some ''pc_gamer''" for c
    using that by (auto simp: ex_translations_def)
  have m: "hd (st_master ex_tables) \<in> set (st_master ex_tables)"
    using ex_st_master_order_ids by (auto intro!: hd_in_set)
  note t = enriched_category_never_missing[of ex_items ex_products ex_translations ex_tables]
  from t mem(1) h[of "product_category_name (?S ! 1)"] c(1)
  have 1: "category (?S ! 1) = Some ''other''" by blast
  from t mem(2) h[of "product_category_name (?S ! 3)"] c(2)
  have 2: "category (?S ! 3) = Some ''other''" by blast
  from t m have 3: "category (sm_item (hd (st_master ex_tables))) \<noteq> None" by blast
  from 1 2 3 show ?thesis by blast
qed

text \<open>
  Claim C3 as stated sends every item whose product has no category to \<^verbatim>\<open>other\<close>. With
  a translation row whose local name is missing, the left merge pairs that row with the
  item of a product without category (the second of the sample data), and the item gets the
  row's English name.
\<close>

theorem missing_key_translation_counterexample:
  "map (\<lambda>r. (product_category_name r, category r))
     (items_e ex_items ex_products cx_nan_key_translations)
   = [(Some ''beleza_saude'', Some ''health_beauty''), (None, Some ''misc''),
      (Some ''beleza_saude'', Some ''health_beauty''), (Some ''pc_gamer'', Some ''other''),
      (Some ''pc_gamer'', Some ''other'')]"
  by (simp add: table_defs joiner_defs ex_defs cx_nan_key_translations_def)

subsection \<open>Scalar KPIs\<close>

lemma total_orders_eq: "total_orders T = length (filter (\<lambda>o'. order_status o' = Some ''delivered'') (orders T))"
  by (simp add: total_orders_def delivered_def)

text \<open>
  Claim C5. \<open>total_orders\<close> is the number of rows of the raw order table whose status is
  exactly the string \<^verbatim>\<open>delivered\<close>; neither the purchase date nor the analysis window
  enters.
\<close>

theorem total_orders_counts_delivered:
  "total_orders T = card {i. i < length (orders T) \<and> order_status (orders T ! i) = Some ''delivered''}"
  by (simp add: total_orders_def delivered_def length_filter_conv_card)

text \<open>In the sample data four orders count (one without date, one before the window, none
  of the two with another status or spelling), while the master table holds two orders.\<close>

theorem total_orders_counts_delivered_witness:
  "total_orders ex_tables = 4 \<and> length (remdups (map m_order_id (master True ex_tables))) = 2"
proof -
  have "{i. i < length (orders ex_tables) \<and> order_status (orders ex_tables ! i) = Some ''delivered''} = {0, 1, 2, 5}"
    by (auto simp: ex_tables_def ex_orders_def ex_order_def nth_Cons' less_Suc_eq numeral_eq_Suc)
  with total_orders_counts_delivered[of ex_tables] show ?thesis
    by (simp add: ex_master_order_ids)
qed

lemma avg_order_value_guarded:
  "avg_order_value T =
     (if total_orders T > 0 then fl (total_revenue T / of_nat (total_orders T)) else Fin 0)"
  by (simp add: avg_order_value_def np_true_divide_def)

lemma pay_merged_no_orders: "total_orders T = 0 \<Longrightarrow> pay_merged T = []"
  by (simp add: total_orders_def pay_merged_def merge_inner_def)

lemma st_avg_order_value_no_orders: "total_orders T = 0 \<Longrightarrow> st_avg_order_value T = NaN"
  using pay_merged_no_orders[of T]
  by (simp add: st_avg_order_value_def total_orders_def agg_sum_def notna_def np_true_divide_def)

text \<open>
  Claim C4. \<^verbatim>\<open>data_pipeline.py\<close> guards the division (lemma \<open>avg_order_value_guarded\<close>);
  \<^verbatim>\<open>streamlit_app.py\<close> divides without a guard, and with no delivered order its average
  order value is \<open>nan\<close>, not 0 (lemma \<open>st_avg_order_value_no_orders\<close>), as on this order
  table without delivered order.
\<close>

theorem st_avg_order_value_unguarded:
  "total_orders no_delivered_tables = 0 \<and> st_avg_order_value no_delivered_tables = NaN \<and>
   avg_order_value no_delivered_tables = Fin 0"
  by (simp add: total_orders_def st_avg_order_value_def avg_order_value_def total_revenue_def
        pay_merged_def np_true_divide_def no_delivered_tables_def table_defs cleaner_defs ex_defs)


subsection \<open>Payments per order\<close>

lemma group_keys_distinct: "distinct (group_keys key rows)"
  by (simp add: group_keys_def)

lemma group_keys_sorted: "sorted (group_keys key rows)"
  by (simp add: group_keys_def)

lemma filter_map_by_key:
  assumes "distinct ks" and "k \<in> set ks" and "\<And>x. f (g x) = x"
  shows "filter (\<lambda>r. f r = k) (map g ks) = [g k]"
  using assms(1,2)
proof (induction ks)
  case Nil
  then show ?case by simp
next
  case (Cons a ks)
  show ?case
  proof (cases "a = k")
    case True
    with Cons.prems have "k \<notin> set ks" by simp
    then have "filter (\<lambda>r. f r = k) (map g ks) = []"
      by (auto simp: filter_empty_conv assms(3))
    with True show ?thesis by (simp add: assms(3))
  next
    case False
    with Cons show ?thesis by (simp add: assms(3))
  qed
qed

lemma agg_sum_map:
  "agg_sum (map f xs) = (\<Sum>x\<leftarrow>xs. case f x of None \<Rightarrow> 0 | Some v \<Rightarrow> v)"
  by (induction xs) (auto simp: agg_sum_def notna_def split: option.splits)

lemma agg_first_map:
  "agg_first (map f xs) = Option.bind (find (\<lambda>x. f x \<noteq> None) xs) f"
  by (induction xs) (auto simp: agg_first_def notna_def split: option.splits)

lemma find_filter_conj:
  "find Q (filter P xs) = find (\<lambda>x. P x \<and> Q x) xs"
  by (induction xs) auto

lemma agg_max_Max:
  "agg_max cs = (if {x. Some x \<in> set cs} = {} then None else Some (Max {x. Some x \<in> set cs}))"
proof (cases "notna cs")
  case Nil
  then have "{x. Some x \<in> set cs} = {}" using set_notna[of cs] by simp
  with Nil show ?thesis by (simp add: agg_max_def)
next
  case (Cons x xs)
  then have s: "{x. Some x \<in> set cs} = set (x # xs)" using set_notna[of cs] by simp
  show ?thesis
    unfolding s agg_max_def Cons by (simp only: list.case Max.set_eq_fold) simp
qed

lemma group_rows_column:
  "{x. Some x \<in> set (map f (group_rows key rows k))} = {x. \<exists>r\<in>set rows. key r = Some k \<and> f r = Some x}"
  by (force simp: group_rows_def image_iff)

text \<open>
  Claim C1. For every order id that appears in the payment table, the payments grouped per
  order hold exactly one row; its \<open>payment_value\<close> is the sum of the payment values of
  all payment rows of that order (a missing value adds nothing), its \<open>payment_type\<close> is
  the payment type of the first row of that order, in input order, that has one, and its
  \<open>max_installments\<close> is the greatest installment count among those rows (missing when
  none of them has one).
\<close>

theorem order_payments_aggregates:
  assumes "Some k \<in> p_order_id ` set ps"
  shows "\<exists>r. filter (\<lambda>r. op_order_id r = k) (order_payments ps) = [r] \<and>
     op_payment_value r =
       (\<Sum>p\<leftarrow>filter (\<lambda>p. p_order_id p = Some k) ps. case payment_value p of None \<Rightarrow> 0 | Some v \<Rightarrow> v) \<and>
     op_payment_type r =
       Option.bind (find (\<lambda>p. p_order_id p = Some k \<and> payment_type p \<noteq> None) ps) payment_type \<and>
     op_max_installments r =
       (if {n. \<exists>p\<in>set ps. p_order_id p = Some k \<and> payment_installments p = Some n} = {} then None
        else Some (Max {n. \<exists>p\<in>set ps. p_order_id p = Some k \<and> payment_installments p = Some n}))"
proof -
  let ?g = "group_rows p_order_id ps k"
  let ?row = "\<lambda>k. let g = group_rows p_order_id ps k in
            \<lparr> op_order_id = k,
              op_payment_value = agg_sum (map payment_value g),
              op_payment_type = agg_first (map payment_type g),
              op_max_installments = agg_max (map payment_installments g) \<rparr>"
  have k: "k \<in> set (group_keys p_order_id ps)"
    using assms by (simp add: group_keys_set)
  have "filter (\<lambda>r. op_order_id r = k) (map ?row (group_keys p_order_id ps)) = [?row k]"
    by (rule filter_map_by_key[OF group_keys_distinct k]) (simp add: Let_def)
  then have 1: "filter (\<lambda>r. op_order_id r = k) (order_payments ps) = [?row k]"
    by (simp only: order_payments_def)
  have 2: "op_payment_value (?row k) =
       (\<Sum>p\<leftarrow>filter (\<lambda>p. p_order_id p = Some k) ps. case payment_value p of None \<Rightarrow> 0 | Some v \<Rightarrow> v)"
    by (simp add: Let_def agg_sum_map group_rows_def)
  have 3: "op_payment_type (?row k) =
       Option.bind (find (\<lambda>p. p_order_id p = Some k \<and> payment_type p \<noteq> None) ps) payment_type"
    by (simp add: Let_def agg_first_map group_rows_def find_filter_conj)
  have 4: "op_max_installments (?row k) =
       (if {n. \<exists>p\<in>set ps. p_order_id p = Some k \<and> payment_installments p = Some n} = {} then None
        else Some (Max {n. \<exists>p\<in>set ps. p_order_id p = Some k \<and> payment_installments p = Some n}))"
    by (simp only: Let_def order_payment.simps agg_max_Max group_rows_column)
  from 1 2 3 4 show ?thesis by blast
qed


text \<open>Order \<open>o1\<close> of the sample data is paid by credit card (20, 3 installments) and by
  voucher (15.5): the grouped row holds 35.5, not the value of either row.\<close>

theorem order_payments_aggregates_witness:
  "map (\<lambda>r. (op_payment_value r, op_payment_type r, op_max_installments r))
     (filter (\<lambda>r. op_order_id r = ''o1'') (order_payments ex_payments))
   = [(71 / 2, Some ''credit_card'', Some 3)]"
proof -
  have k: "Some ''o1'' \<in> p_order_id ` set ex_payments"
    by (simp add: ex_payments_def)
  have s: "{n. \<exists>p\<in>set ex_payments. p_order_id p = Some ''o1'' \<and> payment_installments p = Some n} = {3, 1}"
    by (auto simp: ex_payments_def)
  have v: "(\<Sum>p\<leftarrow>filter (\<lambda>p. p_order_id p = Some ''o1'') ex_payments.
              case payment_value p of None \<Rightarrow> 0 | Some v \<Rightarrow> v) = 71 / 2"
    by (simp add: ex_payments_def)
  have f: "Option.bind (find (\<lambda>p. p_order_id p = Some ''o1'' \<and> payment_type p \<noteq> None) ex_payments)
             payment_type = Some ''credit_card''"
    by (simp add: ex_payments_def)
  from order_payments_aggregates[OF k] obtain r where
    "filter (\<lambda>r. op_order_id r = ''o1'') (order_payments ex_payments) = [r]"
    "op_payment_value r = 71 / 2" "op_payment_type r = Some ''credit_card''"
    "op_max_installments r = Some 3"
    unfolding s v f by auto
  then show ?thesis by simp
qed


subsection \<open>Grouped aggregates: the orders measure\<close>

lemma agg_nunique_card:
  "agg_nunique (map f g) = card {x. \<exists>r\<in>set g. f r = Some x}"
proof -
  have "set (notna (map f g)) = {x. \<exists>r\<in>set g. f r = Some x}"
    by (force simp: set_notna image_iff)
  then show ?thesis
    by (simp add: agg_nunique_def length_remdups_card_conv)
qed

lemma length_notna_le: "length (notna cs) \<le> length cs"
  by (induction cs) (auto simp: notna_def split: option.splits)

lemma agg_nunique_le: "agg_nunique (map f g) \<le> length g"
proof -
  have "length (remdups (notna (map f g))) \<le> length (notna (map f g))"
    by (rule length_remdups_leq)
  also have "\<dots> \<le> length (map f g)" by (rule length_notna_le)
  finally show ?thesis by (simp add: agg_nunique_def)
qed

lemma nunique_of_group:
  assumes "n = agg_nunique (map f (group_rows key m k))"
  shows "n = card {x. \<exists>r\<in>set m. key r = Some k \<and> f r = Some x} \<and>
     n \<le> length (filter (\<lambda>r. key r = Some k) m)"
proof -
  have "{x. \<exists>r\<in>set (group_rows key m k). f r = Some x} = {x. \<exists>r\<in>set m. key r = Some k \<and> f r = Some x}"
    by (auto simp: group_rows_def)
  then show ?thesis
    using agg_nunique_le[of f "group_rows key m k"]
    by (simp add: assms agg_nunique_card group_rows_def)
qed

lemma monthly_row:
  assumes "g \<in> set (monthly m)"
  shows "mo_orders g = agg_nunique (map m_order_id (group_rows m_year_month m (mo_year_month g)))"
  using assms by (auto simp: monthly_def Let_def)

lemma categories_row:
  assumes "g \<in> set (categories m)"
  shows "ca_orders g = agg_nunique (map m_order_id (group_rows m_category m (ca_category g)))"
proof -
  from assms have "g \<in> set (sort_key (\<lambda>r. - ca_revenue r)
       (map (\<lambda>k. let g = group_rows m_category m k in
              \<lparr> ca_category = k, ca_revenue = agg_sum (map m_price g),
                ca_orders = agg_nunique (map m_order_id g),
                ca_avg_price = agg_mean (map m_price g) \<rparr>)
          (group_keys m_category m)))"
    unfolding categories_def by (rule in_set_takeD)
  then show ?thesis by (auto simp: Let_def)
qed

lemma states_row:
  assumes "g \<in> set (states m)"
  shows "st_orders g = agg_nunique (map m_order_id (group_rows m_customer_state m (st_customer_state g)))"
  using assms by (auto simp: states_def Let_def)

lemma quarterly_grouped_row:
  assumes "g \<in> set (quarterly_grouped m)"
  shows "q_orders g = agg_nunique (map m_order_id (group_rows m_quarter m (q_quarter g)))"
  using assms by (auto simp: quarterly_grouped_def Let_def)

lemma length_pct_change: "length (pct_change xs) = length xs"
  by (cases xs) simp_all

lemma quarterly_nth:
  assumes "i < length (quarterly_grouped m)"
  shows "quarterly m ! i = quarterly_row.extend (quarterly_grouped m ! i)
     \<lparr> growth_pct = np_round 1 (fthen (\<lambda>v. fl (v * 100))
          (pct_change (map q_revenue (quarterly_grouped m)) ! i)) \<rparr>"
  using assms by (simp add: quarterly_def Let_def length_pct_change)

lemma length_quarterly: "length (quarterly m) = length (quarterly_grouped m)"
  by (simp add: quarterly_def Let_def length_pct_change)

lemma quarterly_sel:
  "q_quarter (quarterly_row.extend r \<lparr> growth_pct = g \<rparr>) = q_quarter r"
  "q_revenue (quarterly_row.extend r \<lparr> growth_pct = g \<rparr>) = q_revenue r"
  "q_orders (quarterly_row.extend r \<lparr> growth_pct = g \<rparr>) = q_orders r"
  "growth_pct (quarterly_row.extend r \<lparr> growth_pct = g \<rparr>) = g"
  by (simp_all add: quarterly_row.extend_def)

lemma quarterly_row:
  assumes "g \<in> set (quarterly m)"
  shows "q_orders g = agg_nunique (map m_order_id (group_rows m_quarter m (q_quarter g)))"
proof -
  from assms obtain i where i: "i < length (quarterly m)" and g: "g = quarterly m ! i"
    by (auto simp: in_set_conv_nth)
  then have i': "i < length (quarterly_grouped m)" by (simp add: length_quarterly)
  then have "quarterly_grouped m ! i \<in> set (quarterly_grouped m)" by simp
  from quarterly_grouped_row[OF this] show ?thesis
    by (simp add: g quarterly_nth[OF i'] quarterly_sel)
qed

text \<open>
  Claim C10. In the monthly, category, state and quarterly aggregates the \<open>orders\<close>
  measure of a group is the number of distinct order ids (missing ones aside) among the
  master rows of the group, so an order with several item rows counts once, and it is at
  most the number of rows of the group.
\<close>

theorem orders_measure_counts_distinct_orders:
  "(\<forall>g\<in>set (monthly m).
      mo_orders g = card {oid. \<exists>r\<in>set m. m_year_month r = Some (mo_year_month g) \<and> m_order_id r = Some oid} \<and>
      mo_orders g \<le> length (filter (\<lambda>r. m_year_month r = Some (mo_year_month g)) m)) \<and>
   (\<forall>g\<in>set (categories m).
      ca_orders g = card {oid. \<exists>r\<in>set m. m_category r = Some (ca_category g) \<and> m_order_id r = Some oid} \<and>
      ca_orders g \<le> length (filter (\<lambda>r. m_category r = Some (ca_category g)) m)) \<and>
   (\<forall>g\<in>set (states m).
      st_orders g = card {oid. \<exists>r\<in>set m. m_customer_state r = Some (st_customer_state g) \<and> m_order_id r = Some oid} \<and>
      st_orders g \<le> length (filter (\<lambda>r. m_customer_state r = Some (st_customer_state g)) m)) \<and>
   (\<forall>g\<in>set (quarterly m).
      q_orders g = card {oid. \<exists>r\<in>set m. m_quarter r = Some (q_quarter g) \<and> m_order_id r = Some oid} \<and>
      q_orders g \<le> length (filter (\<lambda>r. m_quarter r = Some (q_quarter g)) m))"
  using nunique_of_group[OF monthly_row, of _ m] nunique_of_group[OF categories_row, of _ m]
    nunique_of_group[OF states_row, of _ m] nunique_of_group[OF quarterly_row, of _ m]
  by blast


text \<open>In the sample data order \<open>o1\<close> has two rows in February 2017 and counts once.\<close>

theorem orders_measure_counts_distinct_orders_witness:
  "mo_orders (hd (monthly ex_master)) = 1 \<and>
   length (filter (\<lambda>r. m_year_month r = Some ''2017-02'') ex_master) = 2 \<and>
   card {oid. \<exists>r\<in>set ex_master. m_year_month r = Some ''2017-02'' \<and> m_order_id r = Some oid} = 1 \<and>
   ca_orders (hd (categories ex_master)) =
     card {oid. \<exists>r\<in>set ex_master. m_category r = Some ''other'' \<and> m_order_id r = Some oid} \<and>
   st_orders (hd (states ex_master)) =
     card {oid. \<exists>r\<in>set ex_master. m_customer_state r = Some ''SP'' \<and> m_order_id r = Some oid} \<and>
   q_orders (hd (quarterly ex_master)) =
     card {oid. \<exists>r\<in>set ex_master. m_quarter r = Some ''2017Q1'' \<and> m_order_id r = Some oid}"
proof -
  let ?M = "ex_master"
  have hd_map: "f (hd xs) = y" if "map f xs = y # ys" for f :: "'a \<Rightarrow> 'b" and xs y ys
    using that by (cases xs) auto
  have ne: "hd xs \<in> set xs" if "map f xs = y # ys" for f :: "'a \<Rightarrow> 'b" and xs y ys
    using that by (cases xs) auto
  have mo: "mo_year_month (hd (monthly ?M)) = ''2017-02''" "mo_orders (hd (monthly ?M)) = 1"
    using hd_map[OF ex_aggregates(1)] by simp_all
  have ca: "ca_category (hd (categories ?M)) = ''other''"
    using hd_map[OF ex_aggregates(2)] by simp
  have st: "st_customer_state (hd (states ?M)) = ''SP''"
    using hd_map[OF ex_aggregates(3)] by simp
  have qu: "q_quarter (hd (quarterly ?M)) = ''2017Q1''"
    using hd_map[OF ex_aggregates(4)] by simp
  have "length (filter (\<lambda>c. c = Some ''2017-02'') (map m_year_month ?M)) = 2"
    unfolding ex_master_cols by simp
  then have len: "length (filter (\<lambda>r. m_year_month r = Some ''2017-02'') ?M) = 2"
    by (simp add: filter_map comp_def)
  note t = orders_measure_counts_distinct_orders[of ?M]
  note t1 = t[THEN conjunct1, THEN bspec, OF ne[OF ex_aggregates(1)], THEN conjunct1]
  note t2 = t[THEN conjunct2, THEN conjunct1, THEN bspec, OF ne[OF ex_aggregates(2)], THEN conjunct1]
  note t3 = t[THEN conjunct2, THEN conjunct2, THEN conjunct1, THEN bspec,
      OF ne[OF ex_aggregates(3)], THEN conjunct1]
  note t4 = t[THEN conjunct2, THEN conjunct2, THEN conjunct2, THEN bspec,
      OF ne[OF ex_aggregates(4)], THEN conjunct1]
  from t1 have 1: "card {oid. \<exists>r\<in>set ?M. m_year_month r = Some ''2017-02'' \<and> m_order_id r = Some oid} = 1"
    unfolding mo by simp
  from mo(2) len 1 t2 t3 t4 show ?thesis
    unfolding ca st qu by blast
qed


subsection \<open>Quarterly growth\<close>

lemma group_keys_strict: "sorted_wrt (<) (group_keys key rows)"
  by (simp add: strict_sorted_iff group_keys_distinct group_keys_sorted)

lemma pct_change_0: "xs \<noteq> [] \<Longrightarrow> pct_change xs ! 0 = NaN"
  by (cases xs) simp_all

lemma pct_change_nth:
  assumes "0 < i" and "i < length xs"
  shows "pct_change xs ! i = fthen (\<lambda>q. fl (q - 1)) (np_true_divide (xs ! i) (xs ! (i - 1)))"
proof (cases xs)
  case Nil
  with assms show ?thesis by simp
next
  case (Cons x ys)
  from assms obtain j where j: "i = Suc j" by (cases i) auto
  with assms Cons have "j < length ys" by simp
  then show ?thesis by (simp add: Cons j)
qed

lemma quarterly_grouped_keys:
  "map q_quarter (quarterly_grouped m) = group_keys m_quarter m"
proof -
  let ?rows = "map (\<lambda>k. let g = group_rows m_quarter m k in
              \<lparr> q_quarter = k, q_revenue = agg_sum (map m_price g),
                q_orders = agg_nunique (map m_order_id g) \<rparr>) (group_keys m_quarter m)"
  have k: "map q_quarter ?rows = group_keys m_quarter m"
    by (simp add: Let_def comp_def)
  then have "sorted (map q_quarter ?rows)" by (simp only: group_keys_sorted)
  then have "sort_key q_quarter ?rows = ?rows" by (rule sort_key_id_if_sorted)
  then show ?thesis unfolding quarterly_grouped_def using k by simp
qed

lemma quarterly_keys: "map q_quarter (quarterly m) = group_keys m_quarter m"
proof -
  have "map q_quarter (quarterly m) = map q_quarter (quarterly_grouped m)"
    by (rule nth_equalityI) (simp_all add: length_quarterly quarterly_nth quarterly_sel)
  then show ?thesis by (simp only: quarterly_grouped_keys)
qed

text \<open>The growth of a later row, as the code computes it.\<close>

lemma quarterly_growth_nth:
  assumes "0 < i" and "i < length (quarterly m)"
  shows "growth_pct (quarterly m ! i) =
     np_round 1 (fthen (\<lambda>d. fl (d * 100)) (fthen (\<lambda>q. fl (q - 1))
       (np_true_divide (q_revenue (quarterly m ! i)) (q_revenue (quarterly m ! (i - 1))))))"
proof -
  from assms have i: "0 < i" "i < length (quarterly_grouped m)" "i - 1 < length (quarterly_grouped m)"
    by (auto simp: length_quarterly)
  have "pct_change (map q_revenue (quarterly_grouped m)) ! i =
      fthen (\<lambda>q. fl (q - 1)) (np_true_divide (map q_revenue (quarterly_grouped m) ! i)
         (map q_revenue (quarterly_grouped m) ! (i - 1)))"
    using i by (intro pct_change_nth) simp_all
  then show ?thesis using i
    by (simp add: quarterly_nth quarterly_sel)
qed

lemma quarterly_growth_0:
  assumes "quarterly m \<noteq> []"
  shows "growth_pct (quarterly m ! 0) = NaN"
proof -
  from assms have l: "0 < length (quarterly_grouped m)" by (simp add: length_quarterly[symmetric])
  then have "map q_revenue (quarterly_grouped m) \<noteq> []" by simp
  then show ?thesis
    by (simp add: quarterly_nth[OF l] quarterly_sel pct_change_0 np_round_def del: map_is_Nil_conv)
qed

text \<open>\<^verbatim>\<open>rint\<close> gives the nearest integer, the even one at a tie, and no other integer is
  that.\<close>

lemma rint_cases:
  "rint x = (if x - of_int \<lfloor>x\<rfloor> < 1 / 2 then \<lfloor>x\<rfloor> else if x - of_int \<lfloor>x\<rfloor> > 1 / 2 then \<lfloor>x\<rfloor> + 1
      else if even \<lfloor>x\<rfloor> then \<lfloor>x\<rfloor> else \<lfloor>x\<rfloor> + 1)"
  by (simp add: rint_def Let_def)

lemma rint_nearest_even: "nearest_even (rint x) x"
proof -
  define d where "d = x - of_int \<lfloor>x\<rfloor>"
  have d: "0 \<le> d" "d < 1" "x = of_int \<lfloor>x\<rfloor> + d"
    unfolding d_def by linarith+
  consider "d < 1 / 2" | "d > 1 / 2" | "d = 1 / 2" by linarith
  then show ?thesis
  proof cases
    case 1
    then have "rint x = \<lfloor>x\<rfloor>" by (simp add: rint_cases d_def)
    then have "\<bar>of_int (rint x) - x\<bar> = d" using d by (simp add: d_def)
    with 1 show ?thesis by (simp add: nearest_even_def)
  next
    case 2
    then have "rint x = \<lfloor>x\<rfloor> + 1" by (simp add: rint_cases d_def)
    then have "\<bar>of_int (rint x) - x\<bar> = 1 - d" using d by (simp add: d_def)
    with 2 show ?thesis by (simp add: nearest_even_def)
  next
    case 3
    then have r: "rint x = (if even \<lfloor>x\<rfloor> then \<lfloor>x\<rfloor> else \<lfloor>x\<rfloor> + 1)"
      by (simp add: rint_cases d_def)
    then have "even (rint x)" by simp
    moreover have "\<bar>of_int (rint x) - x\<bar> = 1 / 2"
      using r 3 by (simp add: d_def abs_if)
    ultimately show ?thesis by (simp add: nearest_even_def)
  qed
qed

lemma nearest_even_unique:
  assumes "nearest_even k x" and "nearest_even z x"
  shows "k = z"
proof (rule ccontr)
  assume ne: "k \<noteq> z"
  from assms have a: "\<bar>of_int k - x\<bar> \<le> 1 / 2" "\<bar>of_int z - x\<bar> \<le> 1 / 2"
    by (simp_all add: nearest_even_def)
  then have "\<bar>(of_int k :: rat) - of_int z\<bar> \<le> 1" by linarith
  then have "\<bar>of_int (k - z) :: rat\<bar> \<le> 1" by simp
  then have "\<bar>k - z\<bar> \<le> 1" by (simp only: of_int_abs[symmetric] of_int_le_1_iff)
  with ne have kz: "k = z + 1 \<or> z = k + 1" by linarith
  then have "(of_int k :: rat) = of_int z + 1 \<or> (of_int z :: rat) = of_int k + 1"
    by auto
  with a have "\<bar>of_int k - x\<bar> = 1 / 2" "\<bar>of_int z - x\<bar> = 1 / 2"
    by linarith+
  with assms have "even k" "even z" by (simp_all add: nearest_even_def)
  with kz show False by auto
qed

lemma rint_eqI: "nearest_even k x \<Longrightarrow> rint x = k"
  by (rule nearest_even_unique[OF rint_nearest_even])

text \<open>\<open>ilog2 x\<close> is the exponent of \<open>x\<close>: the \<open>e\<close> with \<open>2\<^sup>e \<le> |x| < 2\<^sup>e\<^sup>+\<^sup>1\<close>.\<close>

lemma bitlen_eqI:
  assumes "2 ^ k \<le> n" and "n < 2 ^ Suc k"
  shows "bitlen n = int k + 1"
proof -
  from assms(2) have "bitlen n \<le> int k + 1"
    by (simp add: bitlen_le_iff_power nat_add_distrib)
  moreover from assms(1) have "int k + 1 \<le> bitlen n"
    by (simp add: bitlen_ge_iff_power nat_add_distrib)
  ultimately show ?thesis by simp
qed

lemma ilog2_eqI:
  assumes lo: "pow2 e \<le> \<bar>x\<bar>" and hi: "\<bar>x\<bar> < pow2 (e + 1)"
  shows "ilog2 x = e"
proof (cases "\<bar>x\<bar> \<ge> 1")
  case True
  have e: "0 \<le> e"
  proof (rule ccontr)
    assume "\<not> 0 \<le> e"
    then have "e + 1 \<le> 0" by simp
    then have "pow2 (e + 1) \<le> 1"
      by (cases "e + 1 = 0") (simp_all add: pow2_def divide_le_eq_1)
    with hi True show False by simp
  qed
  define k where "k = nat e"
  from e have ek: "e = int k" by (simp add: k_def)
  from lo have "(of_int (2 ^ k) :: rat) \<le> \<bar>x\<bar>" by (simp add: pow2_def ek)
  then have 1: "2 ^ k \<le> \<lfloor>\<bar>x\<bar>\<rfloor>" by (simp only: le_floor_iff)
  from hi have "\<bar>x\<bar> < of_int (2 ^ Suc k)" by (simp add: pow2_def ek nat_add_distrib)
  then have 2: "\<lfloor>\<bar>x\<bar>\<rfloor> < 2 ^ Suc k" by (simp only: floor_less_iff)
  from bitlen_eqI[OF 1 2] True show ?thesis by (simp add: ilog2_def ek)
next
  case False
  have "0 < pow2 e" by (simp add: pow2_def)
  with lo have x0: "0 < \<bar>x\<bar>" by linarith
  have e: "e < 0"
  proof (rule ccontr)
    assume "\<not> e < 0"
    then have "1 \<le> pow2 e" by (simp add: pow2_def)
    with lo False show False by simp
  qed
  define m where "m = nat (- e - 1)"
  from e have n1: "nat (- e) = Suc m" and em: "e = - (int m + 1)" by (simp_all add: m_def)
  let ?c = "\<lceil>1 / \<bar>x\<bar>\<rceil>"
  from lo e have "1 / 2 ^ Suc m \<le> \<bar>x\<bar>" by (simp add: pow2_def n1 del: power_Suc)
  then have "1 / \<bar>x\<bar> \<le> of_int (2 ^ Suc m)" using x0 by (simp add: field_simps)
  then have "?c \<le> 2 ^ Suc m" by (simp only: ceiling_le_iff)
  then have 2: "?c - 1 < 2 ^ Suc m" by simp
  have "\<bar>x\<bar> < 1 / 2 ^ m"
  proof (cases m)
    case 0
    with False show ?thesis by simp
  next
    case (Suc n)
    then have "e + 1 < 0" "nat (- (e + 1)) = m" by (simp_all add: em)
    with hi show ?thesis by (simp add: pow2_def)
  qed
  then have "of_int (2 ^ m) < 1 / \<bar>x\<bar>" using x0 by (simp add: field_simps)
  then have "2 ^ m < ?c" by (simp only: less_ceiling_iff)
  then have 1: "2 ^ m \<le> ?c - 1" by simp
  from bitlen_eqI[OF 1 2] False show ?thesis by (simp add: ilog2_def em)
qed

text \<open>The double nearest to \<open>x\<close>, for \<open>x\<close> in the normal range: with \<open>e\<close> the exponent of
  \<open>x\<close>, it is \<open>k\<close> times \<open>2\<^sup>e\<^sup>-\<^sup>5\<^sup>2\<close>, where \<open>k\<close> is the integer nearest to \<open>x / 2\<^sup>e\<^sup>-\<^sup>5\<^sup>2\<close>, the
  even one at a tie.\<close>

lemma fl_eqI:
  assumes "pow2 e \<le> \<bar>x\<bar>" and "\<bar>x\<bar> < pow2 (e + 1)" and "- 1022 \<le> e"
    and "nearest_even k (x / pow2 (e - 52))" and "r = of_int k * pow2 (e - 52)"
    and "\<bar>r\<bar> < 2 ^ 1024"
  shows "fl x = Fin r"
proof -
  have "0 < pow2 e" by (simp add: pow2_def)
  with assms(1) have "x \<noteq> 0" by auto
  moreover have "ilog2 x = e" using assms(1,2) by (rule ilog2_eqI)
  moreover have "rint (x / pow2 (e - 52)) = k" using assms(4) by (rule rint_eqI)
  ultimately show ?thesis using assms(3,5,6)
    by (simp add: fl_def Let_def max_def)
qed

text \<open>\<^verbatim>\<open>round(1)\<close> of a finite double \<open>p\<close>: the nearest integer to the double \<open>10 p\<close>, the
  even one at a tie, divided by 10 as doubles are. Infinities and \<open>nan\<close> stay.\<close>

lemma np_round_1:
  "case v of
     Fin p \<Rightarrow> (case fl (p * 10) of
                 Fin y \<Rightarrow> (\<exists>k. nearest_even k y \<and> np_round 1 v = fl (of_int k / 10))
               | w \<Rightarrow> np_round 1 v = w)
   | w \<Rightarrow> np_round 1 v = w"
proof (cases v)
  case (Fin p)
  show ?thesis
  proof (cases "fl (p * 10)")
    case (Fin y)
    have "np_round 1 v = fl (of_int (rint y) / 10)"
      by (simp add: np_round_def \<open>v = Fin p\<close> Fin)
    with rint_nearest_even[of y] show ?thesis
      by (auto simp: \<open>v = Fin p\<close> Fin)
  qed (simp_all add: np_round_def Fin)
qed (simp_all add: np_round_def)

text \<open>
  Claim C6, as amended. The quarterly aggregate is in strictly ascending order of quarter.
  The growth of its first row is \<open>nan\<close>. The growth of every later row is computed in
  double precision, every step rounded: the revenue of the quarter divided by that of the
  quarter before, minus 1, times 100; the result \<open>p\<close> is then rounded to one decimal, that
  is, the integer \<open>k\<close> nearest to the double \<open>10 p\<close> (the even one at a tie) is divided by
  10. An infinity met on the way stays. When the revenue of the quarter before is 0, the
  growth is \<open>inf\<close>, \<open>-inf\<close> or \<open>nan\<close>, after the sign of the revenue of the quarter.
\<close>

theorem quarterly_growth:
  "sorted_wrt (<) (map q_quarter (quarterly m)) \<and>
   (quarterly m \<noteq> [] \<longrightarrow> growth_pct (quarterly m ! 0) = NaN) \<and>
   (\<forall>i. 0 < i \<and> i < length (quarterly m) \<longrightarrow>
      (if q_revenue (quarterly m ! (i - 1)) = 0
       then growth_pct (quarterly m ! i) =
              (if q_revenue (quarterly m ! i) > 0 then PosInf
               else if q_revenue (quarterly m ! i) < 0 then NegInf else NaN)
       else case fthen (\<lambda>d. fl (d * 100)) (fthen (\<lambda>q. fl (q - 1))
                   (fl (q_revenue (quarterly m ! i) / q_revenue (quarterly m ! (i - 1))))) of
              Fin p \<Rightarrow> (case fl (p * 10) of
                          Fin y \<Rightarrow> (\<exists>k. nearest_even k y \<and>
                                     growth_pct (quarterly m ! i) = fl (of_int k / 10))
                        | w \<Rightarrow> growth_pct (quarterly m ! i) = w)
            | w \<Rightarrow> growth_pct (quarterly m ! i) = w))"
proof (intro conjI allI impI)
  show "sorted_wrt (<) (map q_quarter (quarterly m))"
    by (simp only: quarterly_keys group_keys_strict)
next
  assume "quarterly m \<noteq> []"
  then show "growth_pct (quarterly m ! 0) = NaN" by (rule quarterly_growth_0)
next
  fix i assume "0 < i \<and> i < length (quarterly m)"
  then have i: "0 < i" "i < length (quarterly m)" by simp_all
  let ?cur = "q_revenue (quarterly m ! i)" and ?prev = "q_revenue (quarterly m ! (i - 1))"
  let ?g = "growth_pct (quarterly m ! i)"
  note g = quarterly_growth_nth[OF i]
  show "if ?prev = 0
       then ?g = (if ?cur > 0 then PosInf else if ?cur < 0 then NegInf else NaN)
       else case fthen (\<lambda>d. fl (d * 100)) (fthen (\<lambda>q. fl (q - 1)) (fl (?cur / ?prev))) of
              Fin p \<Rightarrow> (case fl (p * 10) of
                          Fin y \<Rightarrow> (\<exists>k. nearest_even k y \<and> ?g = fl (of_int k / 10))
                        | w \<Rightarrow> ?g = w)
            | w \<Rightarrow> ?g = w"
  proof (cases "?prev = 0")
    case True
    then show ?thesis by (simp add: g np_true_divide_def np_round_def)
  next
    case False
    then have e: "?g = np_round 1 (fthen (\<lambda>d. fl (d * 100)) (fthen (\<lambda>q. fl (q - 1)) (fl (?cur / ?prev))))"
      by (simp add: g np_true_divide_def)
    show ?thesis unfolding if_not_P[OF False] e by (rule np_round_1)
  qed
qed

lemma np_round_1_Fin:
  assumes "fl (p * 10) = Fin y" and "nearest_even k y" and "r = of_int k / 10"
  shows "np_round 1 (Fin p) = fl r"
  unfolding assms(3) using assms(1) rint_eqI[OF assms(2)] by (simp add: np_round_def)

text \<open>The doubles met in the sample data, where the revenue falls from 30.5 to 15.\<close>

lemma ex_growth_doubles:
  "fl (15 / (61 / 2)) = Fin (4429770125282455 / 9007199254740992)"
  "fl (4429770125282455 / 9007199254740992 - 1) = Fin (- (4577429129458537 / 9007199254740992))"
  "fl (- (4577429129458537 / 9007199254740992) * 100) = Fin (- (1788058253694741 / 35184372088832))"
  "fl (- (1788058253694741 / 35184372088832) * 10) = Fin (- (8940291268473705 / 17592186044416))"
  "fl (- (254 / 5)) = Fin (- (3574732204225331 / 70368744177664))"
      apply (rule fl_eqI[where e="- 2" and k=8859540250564910]; simp add: pow2_def nearest_even_def)
     apply (rule fl_eqI[where e="- 1" and k="- 4577429129458537"]; simp add: pow2_def nearest_even_def)
    apply (rule fl_eqI[where e=5 and k="- 7152233014778964"]; simp add: pow2_def nearest_even_def)
   apply (rule fl_eqI[where e=8 and k="- 8940291268473705"]; simp add: pow2_def nearest_even_def)
  apply (rule fl_eqI[where e=5 and k="- 7149464408450662"]; simp add: pow2_def nearest_even_def)
  done

text \<open>The doubles met in the step from 80 to 87, as the code computes it (dividing first)
  and as the difference divided by the revenue before.\<close>

lemma cx_growth_doubles:
  "fl (87 / 80) = Fin (2448832297382707 / 2251799813685248)"
  "fl (2448832297382707 / 2251799813685248 - 1) = Fin (197032483697459 / 2251799813685248)"
  "fl (197032483697459 / 2251799813685248 * 100) = Fin (4925812092436475 / 562949953421312)"
  "fl (4925812092436475 / 562949953421312 * 10) = Fin (3078632557772797 / 35184372088832)"
  "fl (87 / 10) = Fin (2448832297382707 / 281474976710656)"
  "fl (7 / 80) = Fin (3152519739159347 / 36028797018963968)"
  "fl (3152519739159347 / 36028797018963968 * 100) = Fin (35 / 4)"
  "fl (35 / 4 * 10) = Fin (175 / 2)"
  "fl (88 / 10) = Fin (2476979795053773 / 281474976710656)"
          apply (rule fl_eqI[where e=0 and k=4897664594765414]; simp add: pow2_def nearest_even_def)
         apply (rule fl_eqI[where e="- 4" and k=6305039478318688]; simp add: pow2_def nearest_even_def)
        apply (rule fl_eqI[where e=3 and k=4925812092436475]; simp add: pow2_def nearest_even_def)
       apply (rule fl_eqI[where e=6 and k=6157265115545594]; simp add: pow2_def nearest_even_def)
      apply (rule fl_eqI[where e=3 and k=4897664594765414]; simp add: pow2_def nearest_even_def)
     apply (rule fl_eqI[where e="- 4" and k=6305039478318694]; simp add: pow2_def nearest_even_def)
    apply (rule fl_eqI[where e=3 and k=4925812092436480]; simp add: pow2_def nearest_even_def)
   apply (rule fl_eqI[where e=6 and k=6157265115545600]; simp add: pow2_def nearest_even_def)
  apply (rule fl_eqI[where e=3 and k=4953959590107546]; simp add: pow2_def nearest_even_def)
  done

lemma cx_growth_code:
  "np_round 1 (fthen (\<lambda>d. fl (d * 100)) (fthen (\<lambda>q. fl (q - 1)) (np_true_divide 87 80)))
     = fl (87 / 10)"
proof -
  have "np_true_divide 87 80 = fl (87 / 80)" by (simp add: np_true_divide_def)
  then have "fthen (\<lambda>d. fl (d * 100)) (fthen (\<lambda>q. fl (q - 1)) (np_true_divide 87 80))
      = Fin (4925812092436475 / 562949953421312)"
    by (simp only: cx_growth_doubles fthen.simps)
  moreover have "np_round 1 (Fin (4925812092436475 / 562949953421312)) = fl (87 / 10)"
    by (rule np_round_1_Fin[OF cx_growth_doubles(4), where k=87]) (simp_all add: nearest_even_def)
  ultimately show ?thesis by (simp only:)
qed

lemma cx_growth_claim:
  "np_round 1 (fthen (\<lambda>d. fl (d * 100)) (np_true_divide (87 - 80) 80)) = fl (88 / 10)"
proof -
  have "np_true_divide (87 - 80) 80 = fl (7 / 80)" by (simp add: np_true_divide_def)
  then have "fthen (\<lambda>d. fl (d * 100)) (np_true_divide (87 - 80) 80) = Fin (35 / 4)"
    by (simp only: cx_growth_doubles fthen.simps)
  moreover have "np_round 1 (Fin (35 / 4)) = fl (88 / 10)"
    by (rule np_round_1_Fin[OF cx_growth_doubles(8), where k=88]) (simp_all add: nearest_even_def)
  ultimately show ?thesis by (simp only:)
qed

text \<open>In the sample data the revenue falls from 30.5 to 15: a growth of -50.8, as a
  double.\<close>

theorem quarterly_growth_witness:
  "growth_pct (quarterly ex_master ! 0) = NaN \<and>
   growth_pct (quarterly ex_master ! 1) = Fin (- (3574732204225331 / 70368744177664)) \<and>
   fl (- (254 / 5)) = Fin (- (3574732204225331 / 70368744177664))"
proof -
  let ?Q = "quarterly ex_master"
  have r: "map q_revenue ?Q = [61 / 2, 15]"
    using ex_aggregates(4)[THEN arg_cong, of "map (\<lambda>x. snd (snd x))"] by (simp add: comp_def)
  have "length (map q_revenue ?Q) = 2" unfolding r by simp
  then have l: "length ?Q = 2" by simp
  then have ne: "?Q \<noteq> []" by auto
  have v: "q_revenue (?Q ! 0) = 61 / 2" "q_revenue (?Q ! 1) = 15"
    using r[THEN arg_cong, of "\<lambda>xs. xs ! 0"] r[THEN arg_cong, of "\<lambda>xs. xs ! 1"] l by simp_all
  note t = quarterly_growth[of ex_master]
  from t ne have 0: "growth_pct (?Q ! 0) = NaN" by blast
  have "0 < (1::nat) \<and> 1 < length ?Q" by (simp add: l)
  with t have "if q_revenue (?Q ! (1 - 1)) = 0
       then growth_pct (?Q ! 1) =
              (if q_revenue (?Q ! 1) > 0 then PosInf
               else if q_revenue (?Q ! 1) < 0 then NegInf else NaN)
       else case fthen (\<lambda>d. fl (d * 100)) (fthen (\<lambda>q. fl (q - 1))
                   (fl (q_revenue (?Q ! 1) / q_revenue (?Q ! (1 - 1))))) of
              Fin p \<Rightarrow> (case fl (p * 10) of
                          Fin y \<Rightarrow> (\<exists>k. nearest_even k y \<and> growth_pct (?Q ! 1) = fl (of_int k / 10))
                        | w \<Rightarrow> growth_pct (?Q ! 1) = w)
            | w \<Rightarrow> growth_pct (?Q ! 1) = w"
    by blast
  moreover have "(61 / 2 :: rat) \<noteq> 0" by simp
  ultimately have "\<exists>k. nearest_even k (- (8940291268473705 / 17592186044416)) \<and>
      growth_pct (?Q ! 1) = fl (of_int k / 10)"
    by (simp only: diff_self_eq_0 v ex_growth_doubles fthen.simps if_False fval.case)
  then obtain k where k: "nearest_even k (- (8940291268473705 / 17592186044416))"
    and g: "growth_pct (?Q ! 1) = fl (of_int k / 10)"
    by blast
  have "k = - 508"
    by (rule nearest_even_unique[OF k]) (simp add: nearest_even_def)
  with g have "growth_pct (?Q ! 1) = fl (- (254 / 5))" by simp
  with 0 show ?thesis by (simp only: ex_growth_doubles)
qed

text \<open>
  Claim C6 as stated gives the growth as the revenue minus the revenue before, divided by
  the revenue before, times 100, rounded to one decimal. From a revenue of 80 to one of 87
  that is 8.75, rounded to 8.8, also when it is computed in doubles. The code divides
  first: 87 / 80 - 1 is 0.08749999999999991 in doubles, and the growth is 8.7.
\<close>

theorem growth_80_87_counterexample:
  "map q_revenue (quarterly (master True cx_growth_tables)) = [80, 87] \<and>
   map growth_pct (quarterly (master True cx_growth_tables)) = [NaN, fl (87 / 10)] \<and>
   np_round 1 (fthen (\<lambda>d. fl (d * 100)) (np_true_divide (87 - 80) 80)) = fl (88 / 10) \<and>
   fl (87 / 10) \<noteq> fl (88 / 10)"
proof -
  let ?Q = "quarterly (master True cx_growth_tables)"
  have r: "map q_revenue ?Q = [80, 87]"
    by (simp add: quarterly_def quarterly_grouped_def quarterly_row.extend_def cx_growth_tables_def
          table_defs cleaner_defs joiner_defs ex_defs)
  have "length (map q_revenue ?Q) = 2" unfolding r by simp
  then have l: "length ?Q = 2" by simp
  have v: "q_revenue (?Q ! 0) = 80" "q_revenue (?Q ! 1) = 87"
    using r[THEN arg_cong, of "\<lambda>xs. xs ! 0"] r[THEN arg_cong, of "\<lambda>xs. xs ! 1"] l by simp_all
  have 0: "growth_pct (?Q ! 0) = NaN"
    using l by (intro quarterly_growth_0) auto
  have "growth_pct (?Q ! 1) =
     np_round 1 (fthen (\<lambda>d. fl (d * 100)) (fthen (\<lambda>q. fl (q - 1))
       (np_true_divide (q_revenue (?Q ! 1)) (q_revenue (?Q ! (1 - 1))))))"
    by (rule quarterly_growth_nth) (simp_all add: l)
  then have 1: "growth_pct (?Q ! 1) = fl (87 / 10)"
    by (simp only: diff_self_eq_0 v cx_growth_code)
  have "map growth_pct ?Q = [growth_pct (?Q ! 0), growth_pct (?Q ! 1)]"
    using l by (intro nth_equalityI) (auto simp: less_Suc_eq numeral_2_eq_2)
  then have 2: "map growth_pct ?Q = [NaN, fl (87 / 10)]"
    unfolding 0 1 .
  have 3: "fl (87 / 10) \<noteq> fl (88 / 10)"
    by (simp only: cx_growth_doubles) simp
  from r 2 cx_growth_claim 3 show ?thesis by blast
qed

subsection \<open>Credit-card installments\<close>

lemma agg_count_map: "agg_count (map f xs) = length (filter (\<lambda>x. f x \<noteq> None) xs)"
  by (induction xs) (auto simp: agg_count_def notna_def split: option.splits)

lemma installments_grouped_keys:
  "map in_payment_installments (installments_grouped pm) =
     group_keys payment_installments (filter (\<lambda>p. payment_type p = Some ''credit_card'') pm)"
  by (simp add: installments_grouped_def Let_def comp_def)

lemma installments_sorted_already:
  "sort_key in_payment_installments (installments_grouped pm) = installments_grouped pm"
  by (rule sort_key_id_if_sorted) (simp only: installments_grouped_keys group_keys_sorted)

lemma installments_eq: "installments pm = take 12 (installments_grouped pm)"
  by (simp only: installments_def installments_sorted_already)

lemma installment_keys_set:
  "set (map in_payment_installments (installments_grouped pm)) = credit_card_installment_counts pm"
  unfolding installments_grouped_keys group_keys_set credit_card_installment_counts_def
  by (force simp: image_iff)

lemma installments_grouped_row:
  assumes "r \<in> set (installments_grouped pm)"
  shows "in_count r = length (filter (\<lambda>p. payment_type p = Some ''credit_card'' \<and>
            payment_installments p = Some (in_payment_installments r) \<and> p_order_id p \<noteq> None) pm)"
    and "in_total r = (\<Sum>p\<leftarrow>filter (\<lambda>p. payment_type p = Some ''credit_card'' \<and>
            payment_installments p = Some (in_payment_installments r)) pm.
              case payment_value p of None \<Rightarrow> 0 | Some v \<Rightarrow> v)"
  using assms
  by (auto simp: installments_grouped_def Let_def agg_count_map agg_sum_map group_rows_def
        conj_commute intro!: arg_cong[where f=length] arg_cong[where f=sum_list] filter_cong)

lemma take_smallest:
  assumes "sorted_wrt (<) (xs :: int list)" and "n \<in> set xs"
  shows "n \<in> set (take j xs) \<or> (length (take j xs) = j \<and> (\<forall>k\<in>set (take j xs). k < n))"
proof (cases "n \<in> set (take j xs)")
  case True
  then show ?thesis by simp
next
  case False
  have xs: "xs = take j xs @ drop j xs" by simp
  with assms(2) False have d: "n \<in> set (drop j xs)"
    by (metis Un_iff set_append)
  then have "drop j xs \<noteq> []" by auto
  then have l: "length (take j xs) = j" by simp
  from assms(1) have "sorted_wrt (<) (take j xs @ drop j xs)" by simp
  then have "\<forall>k\<in>set (take j xs). \<forall>y\<in>set (drop j xs). k < y"
    unfolding sorted_wrt_append by blast
  with d l show ?thesis by blast
qed

text \<open>
  Claim C7, as amended. The installments aggregate of \<^verbatim>\<open>data_pipeline.py\<close> has at most
  twelve rows, in strictly ascending order of installment count; their counts are the
  twelve smallest that occur among credit-card payments (all of them when fewer than
  twelve occur), whatever their values; each row counts the credit-card payments with that
  installment count and sums their values. The aggregate of \<^verbatim>\<open>streamlit_app.py\<close> holds
  the counts from 1 to 10 that occur.
\<close>

theorem installments_first_twelve:
  "sorted_wrt (<) (map in_payment_installments (installments pm)) \<and>
   length (installments pm) \<le> 12 \<and>
   set (map in_payment_installments (installments pm)) \<subseteq> credit_card_installment_counts pm \<and>
   (\<forall>n\<in>credit_card_installment_counts pm.
      n \<in> set (map in_payment_installments (installments pm)) \<or>
      (length (installments pm) = 12 \<and>
       (\<forall>k\<in>set (map in_payment_installments (installments pm)). k < n))) \<and>
   (\<forall>r\<in>set (installments pm).
      in_count r = length (filter (\<lambda>p. payment_type p = Some ''credit_card'' \<and>
            payment_installments p = Some (in_payment_installments r) \<and> p_order_id p \<noteq> None) pm) \<and>
      in_total r = (\<Sum>p\<leftarrow>filter (\<lambda>p. payment_type p = Some ''credit_card'' \<and>
            payment_installments p = Some (in_payment_installments r)) pm.
              case payment_value p of None \<Rightarrow> 0 | Some v \<Rightarrow> v)) \<and>
   sorted_wrt (<) (map in_payment_installments (inst pm)) \<and>
   set (map in_payment_installments (inst pm)) =
     {n \<in> credit_card_installment_counts pm. 1 \<le> n \<and> n \<le> 10}"
proof -
  let ?K = "map in_payment_installments (installments_grouped pm)"
  have K: "sorted_wrt (<) ?K"
    by (simp only: installments_grouped_keys group_keys_strict)
  have m: "map in_payment_installments (installments pm) = take 12 ?K"
    by (simp add: installments_eq take_map)
  have 1: "sorted_wrt (<) (map in_payment_installments (installments pm))"
    unfolding m using K by (rule sorted_wrt_take)
  have 2: "length (installments pm) \<le> 12" by (simp add: installments_eq)
  have 3: "set (map in_payment_installments (installments pm)) \<subseteq> credit_card_installment_counts pm"
    unfolding m installment_keys_set[symmetric] by (rule set_take_subset)
  have 4: "n \<in> set (map in_payment_installments (installments pm)) \<or>
      (length (installments pm) = 12 \<and>
       (\<forall>k\<in>set (map in_payment_installments (installments pm)). k < n))"
    if "n \<in> credit_card_installment_counts pm" for n
  proof -
    from that have "n \<in> set ?K" by (simp only: installment_keys_set)
    from take_smallest[OF K this, of 12] show ?thesis
      unfolding m[symmetric] by simp
  qed
  have 5: "in_count r = length (filter (\<lambda>p. payment_type p = Some ''credit_card'' \<and>
            payment_installments p = Some (in_payment_installments r) \<and> p_order_id p \<noteq> None) pm) \<and>
      in_total r = (\<Sum>p\<leftarrow>filter (\<lambda>p. payment_type p = Some ''credit_card'' \<and>
            payment_installments p = Some (in_payment_installments r)) pm.
              case payment_value p of None \<Rightarrow> 0 | Some v \<Rightarrow> v)"
    if "r \<in> set (installments pm)" for r
  proof -
    from that have "r \<in> set (installments_grouped pm)"
      unfolding installments_eq by (rule in_set_takeD)
    then show ?thesis using installments_grouped_row by blast
  qed
  have f: "map in_payment_installments (inst pm) = filter (\<lambda>n. 1 \<le> n \<and> n \<le> 10) ?K"
    by (simp add: inst_def filter_map comp_def)
  have 6: "sorted_wrt (<) (map in_payment_installments (inst pm))"
    unfolding f using K by (rule sorted_wrt_filter)
  have 7: "set (map in_payment_installments (inst pm)) =
     {n \<in> credit_card_installment_counts pm. 1 \<le> n \<and> n \<le> 10}"
    unfolding f set_filter installment_keys_set by simp
  from 1 2 3 4 5 6 7 show ?thesis by blast
qed


lemma ex_installment_keys:
  "map in_payment_installments (installments ex_payments) = [0, 3, 24]"
  by (simp add: installments_def installments_grouped_def table_defs ex_defs)

text \<open>The credit-card payments of the sample data have 0, 3 and 24 installments.\<close>

theorem installments_first_twelve_witness:
  "24 \<in> set (map in_payment_installments (installments ex_payments)) \<and>
   in_count (hd (installments ex_payments)) = 1 \<and>
   in_total (hd (installments ex_payments)) = 8 \<and>
   set (map in_payment_installments (inst ex_payments)) = {3}"
proof -
  have S: "credit_card_installment_counts ex_payments = {0, 3, 24}"
    by (auto simp: credit_card_installment_counts_def ex_payments_def)
  have l: "length (installments ex_payments) = 3"
    using ex_installment_keys[THEN arg_cong, of length] by simp
  then have h: "hd (installments ex_payments) \<in> set (installments ex_payments)"
    by (intro hd_in_set) auto
  have k: "in_payment_installments (hd (installments ex_payments)) = 0"
    using ex_installment_keys by (cases "installments ex_payments") auto
  note t = installments_first_twelve[of ex_payments]
  from t S l have 1: "24 \<in> set (map in_payment_installments (installments ex_payments))"
    by auto
  from t h have "in_count (hd (installments ex_payments)) =
      length (filter (\<lambda>p. payment_type p = Some ''credit_card'' \<and>
            payment_installments p = Some (in_payment_installments (hd (installments ex_payments))) \<and>
            p_order_id p \<noteq> None) ex_payments)"
    and "in_total (hd (installments ex_payments)) =
      (\<Sum>p\<leftarrow>filter (\<lambda>p. payment_type p = Some ''credit_card'' \<and>
            payment_installments p = Some (in_payment_installments (hd (installments ex_payments)))) ex_payments.
              case payment_value p of None \<Rightarrow> 0 | Some v \<Rightarrow> v)"
    by blast+
  then have 2: "in_count (hd (installments ex_payments)) = 1"
    "in_total (hd (installments ex_payments)) = 8"
    unfolding k by (simp_all add: ex_payments_def)
  from t have "set (map in_payment_installments (inst ex_payments)) =
     {n \<in> credit_card_installment_counts ex_payments. 1 \<le> n \<and> n \<le> 10}" by blast
  then have 3: "set (map in_payment_installments (inst ex_payments)) = {3}"
    unfolding S by auto
  from 1 2 3 show ?thesis by blast
qed

text \<open>
  Claim C7 as stated keeps the installment counts 1 to 12 and no other. The credit-card
  payments of the delivered orders of the sample data have 0, 3 and 24 installments, and
  all three rows are in the aggregate of \<^verbatim>\<open>data_pipeline.py\<close>.
\<close>

theorem installments_outside_1_12_counterexample:
  "map in_payment_installments (installments (pay_merged ex_tables)) = [0, 3, 24]"
  by (simp add: installments_def installments_grouped_def pay_merged_def table_defs cleaner_defs ex_defs)


subsection \<open>Loader\<close>

lemma first_missing:
  "map fst (filter P xs) = [] \<Longrightarrow> find P xs = None"
  "map fst (filter P xs) = p # ps \<Longrightarrow> map_option fst (find P xs) = Some p"
  by (induction xs) (auto split: if_splits)

lemma load_tables_first_missing:
  "load_tables d =
     (case find (\<lambda>(p, present). \<not> present) (expected_files d) of
        Some (p, _) \<Rightarrow> Inl (FileNotFoundError p)
      | None \<Rightarrow> Inr \<lparr> orders = the (orders_csv d), items = the (items_csv d),
            payments = the (payments_csv d), reviews = the (reviews_csv d),
            customers = the (customers_csv d), products = the (products_csv d),
            sellers = the (sellers_csv d), category_translations = the (translations_csv d) \<rparr>)"
  by (simp add: load_tables_def read_csv_def expected_files_def split: option.splits)

lemma all_present:
  assumes "find (\<lambda>(p, present). \<not> present) (expected_files d) = None"
  shows "orders_csv d \<noteq> None" "items_csv d \<noteq> None" "payments_csv d \<noteq> None"
    "reviews_csv d \<noteq> None" "customers_csv d \<noteq> None" "products_csv d \<noteq> None"
    "sellers_csv d \<noteq> None" "translations_csv d \<noteq> None"
  using assms by (simp_all add: expected_files_def split: if_splits)

text \<open>
  Claim C9, as amended. When an expected file is absent, the loader raises
  FileNotFoundError with the path of the first absent file in reading order,
  \<^verbatim>\<open>data_pipeline.py\<close> ends with that error and leaves the output file as it was,
  whatever the rest of the script would have done, and \<^verbatim>\<open>streamlit_app.py\<close> shows its
  fixed message and stops. When all eight files are present, the loader returns their
  eight tables.
\<close>

theorem loader_outcomes:
  "(missing_files d = [] \<longrightarrow>
      (\<exists>T. load_tables d = Inr T \<and>
         orders_csv d = Some (orders T) \<and> items_csv d = Some (items T) \<and>
         payments_csv d = Some (payments T) \<and> reviews_csv d = Some (reviews T) \<and>
         customers_csv d = Some (customers T) \<and> products_csv d = Some (products T) \<and>
         sellers_csv d = Some (sellers T) \<and> translations_csv d = Some (category_translations T))) \<and>
   (\<forall>p ps. missing_files d = p # ps \<longrightarrow>
      load_tables d = Inl (FileNotFoundError p) \<and>
      run_pipeline rest d out = (Inl (FileNotFoundError p), out) \<and>
      load_data derive d = Inl not_found_message)"
proof (intro conjI allI impI)
  assume "missing_files d = []"
  then have n: "find (\<lambda>(p, present). \<not> present) (expected_files d) = None"
    unfolding missing_files_def by (rule first_missing)
  let ?T = "\<lparr> orders = the (orders_csv d), items = the (items_csv d),
            payments = the (payments_csv d), reviews = the (reviews_csv d),
            customers = the (customers_csv d), products = the (products_csv d),
            sellers = the (sellers_csv d), category_translations = the (translations_csv d) \<rparr>"
  have l: "load_tables d = Inr ?T" by (simp add: load_tables_first_missing n)
  with all_present[OF n]
  show "\<exists>T. load_tables d = Inr T \<and>
         orders_csv d = Some (orders T) \<and> items_csv d = Some (items T) \<and>
         payments_csv d = Some (payments T) \<and> reviews_csv d = Some (reviews T) \<and>
         customers_csv d = Some (customers T) \<and> products_csv d = Some (products T) \<and>
         sellers_csv d = Some (sellers T) \<and> translations_csv d = Some (category_translations T)"
    by (intro exI[of _ ?T]) simp
next
  fix p ps assume "missing_files d = p # ps"
  then have "map_option fst (find (\<lambda>(p, present). \<not> present) (expected_files d)) = Some p"
    unfolding missing_files_def by (rule first_missing)
  then obtain b where "find (\<lambda>(p, present). \<not> present) (expected_files d) = Some (p, b)"
    by auto
  then have l: "load_tables d = Inl (FileNotFoundError p)"
    by (simp add: load_tables_first_missing)
  then show "load_tables d = Inl (FileNotFoundError p)"
    and "run_pipeline rest d out = (Inl (FileNotFoundError p), out)"
    and "load_data derive d = Inl not_found_message"
    by (simp_all add: run_pipeline_def load_data_def not_found_message_def)
qed

text \<open>The sample directory loads into the sample tables. Without the sellers file the
  pipeline ends with the error that names that file and the output file, which did not
  exist, still does not, although the rest of the script (here: one that would write the
  number of delivered orders) always writes.\<close>

theorem loader_outcomes_witness:
  "load_tables ex_dir = Inr ex_tables \<and>
   load_tables ex_dir_no_sellers = Inl (FileNotFoundError ''data/olist_sellers_dataset.csv'') \<and>
   run_pipeline (\<lambda>T f. ((), Some (total_orders T))) ex_dir_no_sellers None =
     (Inl (FileNotFoundError ''data/olist_sellers_dataset.csv''), None)"
proof -
  have a: "missing_files ex_dir = []"
    by (simp add: missing_files_def expected_files_def ex_dir_def)
  have b: "missing_files ex_dir_no_sellers = [''data/olist_sellers_dataset.csv'']"
    by (simp add: missing_files_def expected_files_def ex_dir_no_sellers_def ex_dir_def DATA_DIR_def)
  from loader_outcomes[of ex_dir "\<lambda>T f. ((), Some (total_orders T))" None st_master] a obtain T where
    T: "load_tables ex_dir = Inr T" "orders_csv ex_dir = Some (orders T)"
      "items_csv ex_dir = Some (items T)" "payments_csv ex_dir = Some (payments T)"
      "reviews_csv ex_dir = Some (reviews T)" "customers_csv ex_dir = Some (customers T)"
      "products_csv ex_dir = Some (products T)" "sellers_csv ex_dir = Some (sellers T)"
      "translations_csv ex_dir = Some (category_translations T)"
    by blast
  then have "T = ex_tables"
    by (cases T) (simp add: ex_dir_def ex_tables_def)
  with T(1) loader_outcomes[of ex_dir_no_sellers "\<lambda>T f. ((), Some (total_orders T))" None st_master] b
  show ?thesis by simp
qed


text \<open>
  Claim C9 as stated has every entry point name the missing file. Without the sellers
  file, \<^verbatim>\<open>streamlit_app.py\<close> shows a message in which the file name does not occur.
\<close>

theorem streamlit_message_counterexample:
  "missing_files ex_dir_no_sellers = [''data/olist_sellers_dataset.csv''] \<and>
   load_data st_master ex_dir_no_sellers = Inl not_found_message \<and>
   \<not> contains ''olist_sellers_dataset.csv'' not_found_message"
  by (simp add: missing_files_def expected_files_def load_tables_def read_csv_def load_data_def
        ex_dir_no_sellers_def ex_dir_def DATA_DIR_def not_found_message_def)


end
